theory Spec2Isabelle
  imports Main "HOL-Library.AList" "HOL-Library.Char_ord" "HOL-Library.List_Lexorder"
begin

section \<open>The MySQL keystore of salt (salt/keystores/mysql_keystore.py)\<close>

text \<open>
  The module keeps one table of minions and offers the operations of \<^verbatim>\<open>salt.key.Key\<close>
  on it. The embedding below follows the Python method by method:
  \<^item> the table is a list of rows, in the order a \<^verbatim>\<open>SELECT\<close> returns them;
  \<^item> a Python dict is an association list: a new key goes to the end, an existing key is
    overwritten in place (\<open>AList.update\<close>), \<^verbatim>\<open>pop\<close> is \<open>AList.delete\<close>, a lookup is \<open>map_of\<close>;
  \<^item> an SQL statement is the function it computes on the table, or the error it raises,
    and the \<^verbatim>\<open>WHERE\<close> clause of a statement keeps the placeholders \<^verbatim>\<open>{n}\<close> of the Python
    format string;
  \<^item> an exception is a value \<open>Inl e\<close> of the result.
\<close>

subsection \<open>The table and the connection\<close>

text \<open>
  \<^verbatim>\<open>CREATE TABLE minions (minion_id varchar(255) NOT NULL, minion_key varchar(500),
     key_type enum('zmq','raet'), state enum('acc','rej','den','pre'), PRIMARY KEY (minion_id))\<close>
  The columns are strings. The state column is a string too, since \<^verbatim>\<open>list_keys\<close> provides for
  values other than the four codes.
\<close>

record minion_row =
  minion_id :: string
  minion_key :: string
  key_type :: string
  state :: string

text \<open>
  The object: \<open>rows\<close> is the content of the table, \<open>table\<close> is \<^verbatim>\<open>store_opts['table']\<close>, and
  \<open>online\<close> says whether the server executes statements; when it is False every
  \<^verbatim>\<open>cursor.execute\<close> raises a MySQL error. \<open>collation\<close> is the comparison the server
  makes between a column and a value in a \<^verbatim>\<open>WHERE\<close> clause (the default collations of MySQL
  ignore the case of letters and spaces at the end). \<open>local_keys\<close> is what
  \<^verbatim>\<open>self.local_keys()\<close> returns: the method is inherited from \<^verbatim>\<open>salt.key.Key\<close>, which is not
  part of the module.
\<close>

record keystore =
  rows :: "minion_row list"
  table :: string
  online :: bool
  collation :: "string \<Rightarrow> string \<Rightarrow> bool"
  local_keys :: "(string \<times> string list) list"

datatype error =
    AttributeError "string list"  \<comment> \<open>the arguments of the exception\<close>
  | KeyError string
  | TypeError
  | IndexError
  | Unmodelled_regex  \<comment> \<open>a pattern outside the fragment of \<^verbatim>\<open>re\<close> modelled below\<close>
  | Unmodelled_sql  \<comment> \<open>a statement whose text is outside the SQL modelled below\<close>

type_synonym 'v dict = "(string \<times> 'v) list"

text \<open>The four states a minion can be in.\<close>

definition ACC :: string where "ACC = ''acc''"
definition PEND :: string where "PEND = ''pre''"
definition REJ :: string where "REJ = ''rej''"
definition DEN :: string where "DEN = ''den''"

subsection \<open>SQL statements\<close>

text \<open>
  A \<^verbatim>\<open>WHERE\<close> clause with the placeholders of the format string: \<open>Minion_id_eq n\<close> is
  \<^verbatim>\<open>minion_id='{n}'\<close>, \<open>State_eq n\<close> is \<^verbatim>\<open>state='{n}'\<close>. In SQL \<^verbatim>\<open>AND\<close> binds tighter than
  \<^verbatim>\<open>OR\<close>, so \<^verbatim>\<open>a AND b OR c\<close> is \<open>Or_c (And_c a b) c\<close>. A column is compared with a value by
  the collation of the server.
\<close>

datatype cond =
    Minion_id_eq nat
  | State_eq nat
  | And_c cond cond
  | Or_c cond cond

fun holds :: "(string \<Rightarrow> string \<Rightarrow> bool) \<Rightarrow> string list \<Rightarrow> cond \<Rightarrow> minion_row \<Rightarrow> bool" where
  "holds coll args (Minion_id_eq n) r = coll (minion_id r) (args ! n)"
| "holds coll args (State_eq n) r = coll (state r) (args ! n)"
| "holds coll args (And_c a b) r = (holds coll args a r \<and> holds coll args b r)"
| "holds coll args (Or_c a b) r = (holds coll args a r \<or> holds coll args b r)"

text \<open>
  A statement, run on the rows of the table, gives its data and the new rows, or the code
  of a MySQL error and the rows as they were.
\<close>

type_synonym 'a statement = "minion_row list \<Rightarrow> (nat + 'a) \<times> minion_row list"

text \<open>\<^verbatim>\<open>SELECT minion_id, state FROM {0}\<close>\<close>

definition select_id_state :: "(string \<times> string) list statement" where
  "select_id_state rs = (Inr (map (\<lambda>r. (minion_id r, state r)) rs), rs)"

text \<open>\<^verbatim>\<open>SELECT minion_id FROM {0} where state='{1}'\<close>; each row of the data is the name.\<close>

definition select_id :: "(string \<Rightarrow> string \<Rightarrow> bool) \<Rightarrow> string list \<Rightarrow> string list statement" where
  "select_id coll args rs =
     (Inr (map minion_id (filter (holds coll args (State_eq 1)) rs)), rs)"

text \<open>\<^verbatim>\<open>SELECT minion_id, minion_key from {0} WHERE state='{1}'\<close>\<close>

definition select_id_key ::
  "(string \<Rightarrow> string \<Rightarrow> bool) \<Rightarrow> string list \<Rightarrow> (string \<times> string) list statement" where
  "select_id_key coll args rs =
     (Inr (map (\<lambda>r. (minion_id r, minion_key r)) (filter (holds coll args (State_eq 1)) rs)), rs)"

text \<open>\<^verbatim>\<open>UPDATE {0} SET state='{1}' WHERE\<close> \<open>c\<close>\<close>

definition update_state ::
  "(string \<Rightarrow> string \<Rightarrow> bool) \<Rightarrow> cond \<Rightarrow> string list \<Rightarrow> unit statement" where
  "update_state coll c args rs =
     (Inr (), map (\<lambda>r. if holds coll args c r then r\<lparr>state := args ! 1\<rparr> else r) rs)"

text \<open>\<^verbatim>\<open>DELETE FROM {0} where\<close> \<open>c\<close>, and \<^verbatim>\<open>DELETE FROM {0}\<close>\<close>

definition delete_where ::
  "(string \<Rightarrow> string \<Rightarrow> bool) \<Rightarrow> cond \<Rightarrow> string list \<Rightarrow> unit statement" where
  "delete_where coll c args rs = (Inr (), filter (\<lambda>r. \<not> holds coll args c r) rs)"

definition delete_from :: "unit statement" where
  "delete_from rs = (Inr (), [])"

text \<open>A text that the server does not accept: error 1064, and the table is as it was.\<close>

definition syntax_error :: "'a statement" where
  "syntax_error rs = (Inl 1064, rs)"

text \<open>
  \<^verbatim>\<open>query.format(table, value, ...)\<close>. The values are put between single quotes as they
  are, with no escaping, so the text is the statement of the template only when no value
  holds a quote or a backslash. With an odd number of quotes in the values, and no other
  character that the lexer of MySQL treats specially (backslash, double quote, backquote,
  the characters that start a comment, the NUL character), the last quote of the text opens
  a string that never ends, which is error 1064. Any other text is outside the model: it
  may be another statement altogether. Every argument after the table is a value between
  quotes, or a constant state that the template does not use.
\<close>

definition quote_free :: "string \<Rightarrow> bool" where
  "quote_free v = (CHR 0x27 \<notin> set v \<and> CHR 0x5C \<notin> set v)"

definition harmless :: "char \<Rightarrow> bool" where
  "harmless c = (c \<notin> set [CHR 0x5C, CHR 0x22, CHR 0x60, CHR ''#'', CHR ''-'', CHR ''/'', CHR ''*'', CHR 0x00])"

definition quotes :: "string \<Rightarrow> nat" where
  "quotes v = length (filter (\<lambda>c. c = CHR 0x27) v)"

definition format :: "(string list \<Rightarrow> 'a statement) \<Rightarrow> string list \<Rightarrow> 'a statement option" where
  "format query args =
     (if list_all quote_free (tl args) then Some (query args)
      else if list_all (list_all harmless) (tl args) \<and> odd (sum_list (map quotes (tl args)))
      then Some syntax_error
      else None)"

text \<open>
  \<^verbatim>\<open>error_map\<close>: the message for a MySQL error code; a code that is not in the map gets the
  message of code 0.
\<close>

definition error_map :: "nat \<Rightarrow> string option" where
  "error_map code =
     (if code = 0 then Some ''There was an error during a mysql-operation''
      else if code = 1062 then Some ''Minion {0} already exists in database''
      else if code = 1064 then Some ''Failed to add minion, mysql reported a syntax error''
      else None)"

text \<open>
  \<^verbatim>\<open>run_query\<close> returns \<^verbatim>\<open>(True, data)\<close>, here \<open>Inr data\<close>, or \<^verbatim>\<open>(False, message)\<close>, here
  \<open>Inl message\<close>. A server that is not reachable raises error 2006 for every statement.
\<close>

definition run_query :: "keystore \<Rightarrow> 'a statement \<Rightarrow> (string + 'a) \<times> keystore" where
  "run_query self qry =
     (case (if online self then qry (rows self) else (Inl 2006, rows self)) of
        (Inr data, rs) \<Rightarrow> (Inr data, self\<lparr>rows := rs\<rparr>)
      | (Inl code, rs) \<Rightarrow>
          (case error_map code of
             Some msg \<Rightarrow> (Inl msg, self)
           | None \<Rightarrow> (Inl (the (error_map 0)), self)))"

subsection \<open>The listing\<close>

text \<open>
  The body of the loop of \<^verbatim>\<open>list_keys\<close>:
  \<^verbatim>\<open>try: minions[entry[1]].append(entry[0])
  except KeyError: minions[entry[1]] = []; minions[entry[1]].append(entry[0])\<close>
\<close>

definition add_entry :: "string list dict \<Rightarrow> string \<times> string \<Rightarrow> string list dict" where
  "add_entry minions entry =
     (case map_of minions (snd entry) of
        Some ks \<Rightarrow> AList.update (snd entry) (ks @ [fst entry]) minions
      | None \<Rightarrow> AList.update (snd entry) ([] @ [fst entry]) minions)"

text \<open>
  \<^verbatim>\<open>list_keys\<close> has no decorator. It only reads, so it returns no new object; see
  \<open>run_query_select\<close>.
\<close>

definition list_keys :: "keystore \<Rightarrow> error + string list dict" where
  "list_keys self =
     (case fst (run_query self select_id_state) of
        Inr data \<Rightarrow> Inr (foldl add_entry [(ACC, []), (PEND, []), (REJ, []), (DEN, [])] data)
      | Inl msg \<Rightarrow> Inl (AttributeError [msg]))"

subsection \<open>The decorator\<close>

definition trans_map :: "(string \<times> string) list" where
  "trans_map =
     [(''acc'', ''minions''), (''rej'', ''minions_rejected''),
      (''pre'', ''minions_pre''), (''den'', ''minions_denied'')]"

text \<open>
  \<^verbatim>\<open>for key in trans_map: if key in d: d[trans_map[key]] = d.pop(key)\<close>
  The values of the dict are of any type: the loop moves them and never looks at them.
\<close>

definition rename_key :: "'v dict \<Rightarrow> string \<times> string \<Rightarrow> 'v dict" where
  "rename_key d kn =
     (case map_of d (fst kn) of
        Some v \<Rightarrow> AList.update (snd kn) v (AList.delete (fst kn) d)
      | None \<Rightarrow> d)"

definition compat_dict :: "'v dict \<Rightarrow> 'v dict" where
  "compat_dict d = foldl rename_key d trans_map"

text \<open>
  The wrapper, applied to what the method returns: an exception of the method passes
  through. Below, the body of a method \<open>m\<close> with the decorator is \<open>m_func\<close>, after the name
  the decorator gives it, and \<open>m\<close> is the wrapper applied to it.
\<close>

definition compat :: "(error + 'v dict) \<times> keystore \<Rightarrow> (error + 'v dict) \<times> keystore" where
  "compat res = (case res of (Inl e, s) \<Rightarrow> (Inl e, s) | (Inr d, s) \<Rightarrow> (Inr (compat_dict d), s))"

subsection \<open>Strings\<close>

text \<open>\<^verbatim>\<open>s.endswith(c)\<close>, \<^verbatim>\<open>s.strip(c)\<close> and \<^verbatim>\<open>s.split(c)\<close> for a one-character \<open>c\<close>.\<close>

definition endswith :: "string \<Rightarrow> char \<Rightarrow> bool" where
  "endswith s c = (s \<noteq> [] \<and> last s = c)"

definition strip :: "string \<Rightarrow> char \<Rightarrow> string" where
  "strip s c = rev (dropWhile (\<lambda>x. x = c) (rev (dropWhile (\<lambda>x. x = c) s)))"

fun split_str :: "string \<Rightarrow> char \<Rightarrow> string list" where
  "split_str [] c = [[]]"
| "split_str (x # xs) c =
     (if x = c then [] # split_str xs c
      else (case split_str xs c of
              y # ys \<Rightarrow> (x # y) # ys
            | [] \<Rightarrow> [[x]]))"

text \<open>
  Modelled from the spec: \<^verbatim>\<open>salt.utils.isorted\<close> is not part of the module; the spec has
  the names of a state ordered lexicographically.
\<close>

definition isorted :: "string list \<Rightarrow> string list" where
  "isorted keys = sort keys"

subsection \<open>Regular expressions\<close>

text \<open>
  \<^verbatim>\<open>name_match\<close> hands its pattern to \<^verbatim>\<open>re.match\<close>. The fragment of \<^verbatim>\<open>re\<close> modelled here:
  an ordinary character stands for itself, \<^verbatim>\<open>.\<close> is any character but a newline, \<^verbatim>\<open>\w\<close> is
  a letter, a digit or the underscore (the pattern is a byte string and no flag is given),
  and each of them may be followed by one \<^verbatim>\<open>*\<close>. Every other use of a special character is
  outside the fragment, and \<open>parse_re\<close> is None there.
\<close>

datatype atom = Lit char | Any_char | Word_char

datatype token = Atom atom | Asterisk

datatype item = One atom | Star atom

definition special :: "char \<Rightarrow> bool" where
  "special c = (c \<in> set (''.^$*+?{}[]|()'' @ [CHR 0x5C]))"

fun tokens :: "string \<Rightarrow> token list option" where
  "tokens [] = Some []"
| "tokens (c # cs) =
     (if c = CHR ''*'' then map_option ((#) Asterisk) (tokens cs)
      else if c = CHR ''.'' then map_option ((#) (Atom Any_char)) (tokens cs)
      else if c = CHR 0x5C then
        (case cs of
           d # ds \<Rightarrow> if d = CHR ''w'' then map_option ((#) (Atom Word_char)) (tokens ds) else None
         | [] \<Rightarrow> None)
      else if special c then None
      else map_option ((#) (Atom (Lit c))) (tokens cs))"

fun items :: "token list \<Rightarrow> item list option" where
  "items [] = Some []"
| "items (Atom a # Asterisk # ts) = map_option ((#) (Star a)) (items ts)"
| "items (Atom a # ts) = map_option ((#) (One a)) (items ts)"
| "items (Asterisk # ts) = None"

definition parse_re :: "string \<Rightarrow> item list option" where
  "parse_re p = (case tokens p of Some ts \<Rightarrow> items ts | None \<Rightarrow> None)"

definition is_word :: "char \<Rightarrow> bool" where
  "is_word c =
     (let n = (of_char c :: nat)
      in (48 \<le> n \<and> n \<le> 57) \<or> (65 \<le> n \<and> n \<le> 90) \<or> (97 \<le> n \<and> n \<le> 122) \<or> n = 95)"

fun atom_match :: "atom \<Rightarrow> char \<Rightarrow> bool" where
  "atom_match (Lit c) x = (x = c)"
| "atom_match Any_char x = (x \<noteq> CHR 0x0A)"
| "atom_match Word_char x = is_word x"

text \<open>
  Whether the items, followed by \<^verbatim>\<open>$\<close>, match the whole of \<open>s\<close>. \<^verbatim>\<open>$\<close> matches at the end of
  the string and just before a newline that ends the string.
\<close>

fun matches_to_end :: "item list \<Rightarrow> string \<Rightarrow> bool" where
  "matches_to_end [] s = (s = [] \<or> s = [CHR 0x0A])"
| "matches_to_end (One a # r) [] = False"
| "matches_to_end (One a # r) (x # xs) = (atom_match a x \<and> matches_to_end r xs)"
| "matches_to_end (Star a # r) [] = matches_to_end r []"
| "matches_to_end (Star a # r) (x # xs) =
     (matches_to_end r (x # xs) \<or> (atom_match a x \<and> matches_to_end (Star a # r) xs))"

text \<open>\<^verbatim>\<open>rematch('^' + p + '$', key)\<close>, None when \<open>p\<close> is outside the fragment.\<close>

definition rematch_anchored :: "string \<Rightarrow> string \<Rightarrow> bool option" where
  "rematch_anchored p key = map_option (\<lambda>r. matches_to_end r key) (parse_re p)"

subsection \<open>Selecting minions\<close>

text \<open>
  \<^verbatim>\<open>if status not in ret_matched: ret_matched[status] = []
  ret_matched[status].append(key)\<close>
\<close>

definition add_match :: "string list dict \<Rightarrow> string \<Rightarrow> string \<Rightarrow> string list dict" where
  "add_match ret_matched status key =
     (let ret = (if map_of ret_matched status = None then AList.update status [] ret_matched
                 else ret_matched)
      in case map_of ret status of
           Some ks \<Rightarrow> AList.update status (ks @ [key]) ret
         | None \<Rightarrow> ret)"

text \<open>
  The test of one key. When the pattern has been split into a list, the loop over its items
  evaluates \<^verbatim>\<open>'^' + match + '$'\<close> with the list \<^verbatim>\<open>match\<close>, not with \<^verbatim>\<open>match_item\<close>: the
  concatenation of a string and a list raises TypeError in the first round.
\<close>

definition test_key :: "string + string list \<Rightarrow> string \<Rightarrow> error + bool" where
  "test_key match key =
     (case match of
        Inr match_list \<Rightarrow> (case match_list of [] \<Rightarrow> Inr False | match_item # _ \<Rightarrow> Inl TypeError)
      | Inl p \<Rightarrow> (case rematch_anchored p key of None \<Rightarrow> Inl Unmodelled_regex | Some b \<Rightarrow> Inr b))"

text \<open>\<^verbatim>\<open>for key in salt.utils.isorted(keys): ...\<close>, the list of keys already sorted.\<close>

fun match_keys ::
  "string + string list \<Rightarrow> string \<Rightarrow> string list dict \<Rightarrow> string list \<Rightarrow> error + string list dict" where
  "match_keys match status ret [] = Inr ret"
| "match_keys match status ret (key # keys) =
     (case test_key match key of
        Inl e \<Rightarrow> Inl e
      | Inr b \<Rightarrow> match_keys match status (if b then add_match ret status key else ret) keys)"

text \<open>\<^verbatim>\<open>for status, keys in six.iteritems(matches): ...\<close>\<close>

fun match_states ::
  "string + string list \<Rightarrow> string list dict \<Rightarrow> string list dict \<Rightarrow> error + string list dict" where
  "match_states match ret [] = Inr ret"
| "match_states match ret ((status, keys) # rest) =
     (case match_keys match status ret (isorted keys) of
        Inl e \<Rightarrow> Inl e
      | Inr ret' \<Rightarrow> match_states match ret' rest)"

text \<open>
  The rework of the pattern: a pattern that ends with an asterisk loses the asterisks at
  both ends and gets \<^verbatim>\<open>\w*\<close>; a pattern with a comma becomes a list.
\<close>

definition rework :: "string \<Rightarrow> string + string list" where
  "rework match =
     (let match1 = (if endswith match (CHR ''*'') then strip match (CHR ''*'') @ [CHR 0x5C, CHR ''w'', CHR ''*'']
                    else match)
      in if CHR '','' \<in> set match1 then Inr (split_str match1 (CHR '','')) else Inl match1)"

text \<open>
  \<^verbatim>\<open>name_match(match)\<close>. Every call of the module leaves \<^verbatim>\<open>full\<close> at False, so the candidates
  are those of \<open>list_keys\<close>; the other branch calls \<^verbatim>\<open>salt.key.Key.local_keys\<close>, which is not
  part of the module.
\<close>

definition name_match :: "keystore \<Rightarrow> string \<Rightarrow> error + string list dict" where
  "name_match self match =
     (case list_keys self of
        Inl e \<Rightarrow> Inl e
      | Inr matches \<Rightarrow> match_states (rework match) [] matches)"

text \<open>\<^verbatim>\<open>dict_match\<close> logs that it is not yet implemented and returns the empty dict.\<close>

definition dict_match :: "keystore \<Rightarrow> string list dict \<Rightarrow> error + string list dict" where
  "dict_match self match_dict = Inr []"

text \<open>
  The head of \<^verbatim>\<open>accept\<close>, \<^verbatim>\<open>reject\<close> and \<^verbatim>\<open>delete_key\<close>: the pattern if there is one, else the
  dict if there is one, else nothing. And their last expression:
  \<^verbatim>\<open>self.name_match(match) if match is not None else self.dict_match(matches)\<close>.
\<close>

definition matches_of ::
  "keystore \<Rightarrow> string option \<Rightarrow> string list dict option \<Rightarrow> error + string list dict" where
  "matches_of self match match_dict =
     (case match of
        Some m \<Rightarrow> name_match self m
      | None \<Rightarrow> (case match_dict of Some d \<Rightarrow> Inr d | None \<Rightarrow> Inr []))"

definition matched_now ::
  "keystore \<Rightarrow> string option \<Rightarrow> string list dict \<Rightarrow> error + string list dict" where
  "matched_now self match matches =
     (case match of Some m \<Rightarrow> name_match self m | None \<Rightarrow> dict_match self matches)"

text \<open>
  \<^verbatim>\<open>for state, minions in six.iteritems(matches): for minion in minions: ...\<close>
  The body gives None when its statement is outside the model, and the loop ends there.
\<close>

fun for_each :: "('s \<Rightarrow> 'x \<Rightarrow> 's option) \<Rightarrow> 's \<Rightarrow> 'x list \<Rightarrow> 's option" where
  "for_each body s [] = Some s"
| "for_each body s (x # xs) =
     (case body s x of None \<Rightarrow> None | Some s' \<Rightarrow> for_each body s' xs)"

definition for_minions ::
  "('s \<Rightarrow> string \<Rightarrow> 's option) \<Rightarrow> 's \<Rightarrow> string list dict \<Rightarrow> 's option" where
  "for_minions body s matches =
     for_each (\<lambda>s (state, minions). for_each body s minions) s matches"

text \<open>\<^verbatim>\<open>self.run_query(exec_query)\<close> as a statement of its own: what it returns is dropped.\<close>

definition execute :: "keystore \<Rightarrow> 'a statement option \<Rightarrow> keystore option" where
  "execute self exec_query = map_option (\<lambda>qry. snd (run_query self qry)) exec_query"

subsection \<open>Accepting\<close>

text \<open>
  \<^verbatim>\<open>query = "UPDATE {0} SET state='{1}' WHERE minion_id='{2}' AND state='{3}'"
  if include_rejected: query += " OR state='{3}'"\<close>
\<close>

definition accept_query :: "bool \<Rightarrow> cond" where
  "accept_query include_rejected =
     (let query = And_c (Minion_id_eq 2) (State_eq 3)
      in if include_rejected then Or_c query (State_eq 3) else query)"

definition accept_minion :: "bool \<Rightarrow> keystore \<Rightarrow> string \<Rightarrow> keystore option" where
  "accept_minion include_rejected self minion =
     (if include_rejected then
        execute self (format (update_state (collation self) (accept_query include_rejected))
          [table self, ACC, minion, PEND, REJ])
      else
        execute self (format (update_state (collation self) (accept_query include_rejected))
          [table self, ACC, minion, PEND]))"

definition accept_func ::
  "keystore \<Rightarrow> string option \<Rightarrow> string list dict option \<Rightarrow> bool
   \<Rightarrow> (error + string list dict) \<times> keystore" where
  "accept_func self match match_dict include_rejected =
     (case matches_of self match match_dict of
        Inl e \<Rightarrow> (Inl e, self)
      | Inr matches \<Rightarrow>
          (case for_minions (accept_minion include_rejected) self matches of
             None \<Rightarrow> (Inl Unmodelled_sql, self)
           | Some self' \<Rightarrow> (matched_now self' match matches, self')))"

definition accept ::
  "keystore \<Rightarrow> string option \<Rightarrow> string list dict option \<Rightarrow> bool
   \<Rightarrow> (error + string list dict) \<times> keystore" where
  "accept self match match_dict include_rejected =
     compat (accept_func self match match_dict include_rejected)"

text \<open>
  \<^verbatim>\<open>accept_all\<close>: \<^verbatim>\<open>UPDATE {0} set state='{1}' where minion_id='{2}'\<close> for every key of
  \<^verbatim>\<open>self.list_keys()[self.PEND]\<close>, then the listing.
\<close>

definition accept_all_func :: "keystore \<Rightarrow> (error + string list dict) \<times> keystore" where
  "accept_all_func self =
     (case list_keys self of
        Inl e \<Rightarrow> (Inl e, self)
      | Inr data \<Rightarrow>
          (case map_of data PEND of
             None \<Rightarrow> (Inl (KeyError PEND), self)
           | Some keys \<Rightarrow>
               (case for_each (\<lambda>s key. execute s (format (update_state (collation s) (Minion_id_eq 2))
                                 [table s, ACC, key])) self keys of
                  None \<Rightarrow> (Inl Unmodelled_sql, self)
                | Some self' \<Rightarrow> (list_keys self', self'))))"

definition accept_all :: "keystore \<Rightarrow> (error + string list dict) \<times> keystore" where
  "accept_all self = compat (accept_all_func self)"

subsection \<open>Rejecting\<close>

text \<open>
  \<^verbatim>\<open>query = "UPDATE {0} SET state='{1}' WHERE minion_id='{2}' AND state='{3}'"
  if include_accepted: query += " OR state='{3}'"\<close>
\<close>

definition reject_query :: "bool \<Rightarrow> cond" where
  "reject_query include_accepted =
     (let query = And_c (Minion_id_eq 2) (State_eq 3)
      in if include_accepted then Or_c query (State_eq 3) else query)"

definition reject_minion :: "bool \<Rightarrow> keystore \<Rightarrow> string \<Rightarrow> keystore option" where
  "reject_minion include_accepted self minion =
     (if include_accepted then
        execute self (format (update_state (collation self) (reject_query include_accepted))
          [table self, REJ, minion, PEND, ACC])
      else
        execute self (format (update_state (collation self) (reject_query include_accepted))
          [table self, REJ, minion, ACC]))"

definition reject_func ::
  "keystore \<Rightarrow> string option \<Rightarrow> string list dict option \<Rightarrow> bool
   \<Rightarrow> (error + string list dict) \<times> keystore" where
  "reject_func self match match_dict include_accepted =
     (case matches_of self match match_dict of
        Inl e \<Rightarrow> (Inl e, self)
      | Inr matches \<Rightarrow>
          (case for_minions (reject_minion include_accepted) self matches of
             None \<Rightarrow> (Inl Unmodelled_sql, self)
           | Some self' \<Rightarrow> (matched_now self' match matches, self')))"

definition reject ::
  "keystore \<Rightarrow> string option \<Rightarrow> string list dict option \<Rightarrow> bool
   \<Rightarrow> (error + string list dict) \<times> keystore" where
  "reject self match match_dict include_accepted =
     compat (reject_func self match match_dict include_accepted)"

text \<open>\<^verbatim>\<open>reject_all\<close>: \<^verbatim>\<open>UPDATE {0} set state='{1}' where state='{2}' and minion_id='{3}'\<close>\<close>

definition reject_all_func :: "keystore \<Rightarrow> (error + string list dict) \<times> keystore" where
  "reject_all_func self =
     (case list_keys self of
        Inl e \<Rightarrow> (Inl e, self)
      | Inr data \<Rightarrow>
          (case map_of data PEND of
             None \<Rightarrow> (Inl (KeyError PEND), self)
           | Some keys \<Rightarrow>
               (case for_each (\<lambda>s key. execute s
                                 (format (update_state (collation s) (And_c (State_eq 2) (Minion_id_eq 3)))
                                    [table s, REJ, PEND, key])) self keys of
                  None \<Rightarrow> (Inl Unmodelled_sql, self)
                | Some self' \<Rightarrow> (list_keys self', self'))))"

definition reject_all :: "keystore \<Rightarrow> (error + string list dict) \<times> keystore" where
  "reject_all self = compat (reject_all_func self)"

subsection \<open>Deleting\<close>

text \<open>
  \<^verbatim>\<open>delete_key\<close> keeps the flag of the last statement in \<^verbatim>\<open>ret\<close>, which starts as None;
  \<^verbatim>\<open>if ret:\<close> holds for True only. The argument \<^verbatim>\<open>preserve_minions\<close> is not used by the
  method, and the drop file of \<^verbatim>\<open>rotate_aes_key\<close> is outside the table.
\<close>

definition delete_minion ::
  "bool option \<times> keystore \<Rightarrow> string \<Rightarrow> (bool option \<times> keystore) option" where
  "delete_minion rs key =
     (case format (delete_where (collation (snd rs)) (Minion_id_eq 1)) [table (snd rs), key] of
        None \<Rightarrow> None
      | Some qry \<Rightarrow>
          (case run_query (snd rs) qry of
             (Inr data, self') \<Rightarrow> Some (Some True, self')
           | (Inl msg, self') \<Rightarrow> Some (Some False, self')))"

definition delete_key_func ::
  "keystore \<Rightarrow> string option \<Rightarrow> string list dict option
   \<Rightarrow> (error + string list dict) \<times> keystore" where
  "delete_key_func self match match_dict =
     (case matches_of self match match_dict of
        Inl e \<Rightarrow> (Inl e, self)
      | Inr matches \<Rightarrow>
          (case for_minions delete_minion (None, self) matches of
             None \<Rightarrow> (Inl Unmodelled_sql, self)
           | Some (ret, self') \<Rightarrow>
               if ret = Some True then (matched_now self' match matches, self')
               else (Inl (AttributeError []), self')))"

definition delete_key ::
  "keystore \<Rightarrow> string option \<Rightarrow> string list dict option
   \<Rightarrow> (error + string list dict) \<times> keystore" where
  "delete_key self match match_dict = compat (delete_key_func self match match_dict)"

definition delete_all_func :: "keystore \<Rightarrow> (error + string list dict) \<times> keystore" where
  "delete_all_func self =
     (case run_query self delete_from of
        (Inr data, self') \<Rightarrow> (list_keys self', self')
      | (Inl msg, self') \<Rightarrow> (Inl (AttributeError [msg]), self'))"

definition delete_all :: "keystore \<Rightarrow> (error + string list dict) \<times> keystore" where
  "delete_all self = compat (delete_all_func self)"

subsection \<open>The other listings\<close>

text \<open>\<^verbatim>\<open>all_keys\<close>: \<^verbatim>\<open>keys = self.list_keys(); keys.update(self.local_keys()); return keys\<close>\<close>

definition all_keys_func :: "keystore \<Rightarrow> (error + string list dict) \<times> keystore" where
  "all_keys_func self =
     (case list_keys self of
        Inl e \<Rightarrow> (Inl e, self)
      | Inr keys \<Rightarrow> (Inr (foldl (\<lambda>d (k, v). AList.update k v d) keys (local_keys self)), self))"

definition all_keys :: "keystore \<Rightarrow> (error + string list dict) \<times> keystore" where
  "all_keys self = compat (all_keys_func self)"

text \<open>\<^verbatim>\<open>s.startswith(p)\<close>\<close>

definition startswith :: "string \<Rightarrow> string \<Rightarrow> bool" where
  "startswith s p = (take (length p) s = p)"

text \<open>
  One branch of \<^verbatim>\<open>list_status\<close>, for the state \<open>code\<close>:
  \<^verbatim>\<open>minions = {code: []}\<close>, the statement \<^verbatim>\<open>SELECT minion_id FROM {0} where state='{1}'\<close>
  with the constant \<open>code\<close>, and \<^verbatim>\<open>minions[match] = [x[0] for x in data]\<close>. When the
  statement fails the method means to raise AttributeError with \<^verbatim>\<open>ret[1]\<close>, but \<^verbatim>\<open>ret\<close> is
  False, and to subscript it raises TypeError.
\<close>

definition list_state :: "keystore \<Rightarrow> string \<Rightarrow> string \<Rightarrow> (error + string list dict) \<times> keystore" where
  "list_state self match code =
     (case run_query self (select_id (collation self) [table self, code]) of
        (Inr data, self') \<Rightarrow> (Inr (AList.update match data [(code, [])]), self')
      | (Inl msg, self') \<Rightarrow> (Inl TypeError, self'))"

text \<open>
  \<^verbatim>\<open>list_status(match)\<close>. When \<^verbatim>\<open>match\<close> starts with none of the words, the template still
  has its \<^verbatim>\<open>{1}\<close> when \<^verbatim>\<open>query.format(self.store_opts['table'])\<close> is evaluated, which raises
  IndexError.
\<close>

definition list_status_func :: "keystore \<Rightarrow> string \<Rightarrow> (error + string list dict) \<times> keystore" where
  "list_status_func self match =
     (if startswith match ''acc'' then list_state self match ''acc''
      else if startswith match ''pre'' \<or> startswith match ''un'' then list_state self match ''pre''
      else if startswith match ''rej'' then list_state self match ''rej''
      else if startswith match ''den'' then list_state self match ''den''
      else if startswith match ''all'' then all_keys self
      else (Inl IndexError, self))"

definition list_status :: "keystore \<Rightarrow> string \<Rightarrow> (error + string list dict) \<times> keystore" where
  "list_status self match = compat (list_status_func self match)"

subsection \<open>The key strings\<close>

text \<open>\<^verbatim>\<open>minion_keys[state][entry[0]] = entry[1]\<close>\<close>

definition add_key_entry ::
  "(string \<times> string) list dict \<Rightarrow> string \<Rightarrow> string \<times> string \<Rightarrow> (string \<times> string) list dict" where
  "add_key_entry minion_keys status entry =
     (case map_of minion_keys status of
        Some inner \<Rightarrow> AList.update status (AList.update (fst entry) (snd entry) inner) minion_keys
      | None \<Rightarrow> minion_keys)"

text \<open>
  The loop of \<^verbatim>\<open>key_str\<close> and \<^verbatim>\<open>key_str_all\<close> over the states:
  \<^verbatim>\<open>minion_keys[state] = {}\<close>, the statement
  \<^verbatim>\<open>SELECT minion_id, minion_key from {0} WHERE state='{1}'\<close>, and the loop over its data.
  The flag of \<^verbatim>\<open>run_query\<close> is not looked at: when the statement fails the loop runs over
  the characters of the message, and \<^verbatim>\<open>entry[1]\<close> of a character raises IndexError.
\<close>

fun key_states ::
  "keystore \<Rightarrow> (string \<times> string) list dict \<Rightarrow> string list
   \<Rightarrow> (error + (string \<times> string) list dict) \<times> keystore" where
  "key_states self minion_keys [] = (Inr minion_keys, self)"
| "key_states self minion_keys (status # states) =
     (case format (select_id_key (collation self)) [table self, status] of
        None \<Rightarrow> (Inl Unmodelled_sql, self)
      | Some qry \<Rightarrow>
          (case run_query self qry of
             (Inr state_data, self') \<Rightarrow>
               key_states self'
                 (foldl (\<lambda>d entry. add_key_entry d status entry)
                    (AList.update status [] minion_keys) state_data)
                 states
           | (Inl msg, self') \<Rightarrow>
               (case msg of
                  [] \<Rightarrow> key_states self' (AList.update status [] minion_keys) states
                | c # cs \<Rightarrow> (Inl IndexError, self'))))"

text \<open>\<^verbatim>\<open>for state, keys in six.iteritems(self.name_match(match)): ...\<close>\<close>

definition key_str_func ::
  "keystore \<Rightarrow> string \<Rightarrow> (error + (string \<times> string) list dict) \<times> keystore" where
  "key_str_func self match =
     (case name_match self match of
        Inl e \<Rightarrow> (Inl e, self)
      | Inr matches \<Rightarrow> key_states self [] (map fst matches))"

definition key_str ::
  "keystore \<Rightarrow> string \<Rightarrow> (error + (string \<times> string) list dict) \<times> keystore" where
  "key_str self match = compat (key_str_func self match)"

text \<open>\<^verbatim>\<open>data = self.list_keys(); for state in data: ...\<close>\<close>

definition key_str_all_func ::
  "keystore \<Rightarrow> (error + (string \<times> string) list dict) \<times> keystore" where
  "key_str_all_func self =
     (case list_keys self of
        Inl e \<Rightarrow> (Inl e, self)
      | Inr data \<Rightarrow> key_states self [] (map fst data))"

definition key_str_all :: "keystore \<Rightarrow> (error + (string \<times> string) list dict) \<times> keystore" where
  "key_str_all self = compat (key_str_all_func self)"

subsection \<open>Notation for the statements\<close>

text \<open>The names of the rows in state \<open>s\<close>, in the order of the table.\<close>

abbreviation names_in :: "keystore \<Rightarrow> string \<Rightarrow> string list" where
  "names_in self s \<equiv> map minion_id (filter (\<lambda>r. state r = s) (rows self))"

text \<open>The names bound to \<open>s\<close> in a dict, none when \<open>s\<close> is not a key.\<close>

abbreviation bucket :: "'v list dict \<Rightarrow> string \<Rightarrow> 'v list" where
  "bucket d s \<equiv> (case map_of d s of None \<Rightarrow> [] | Some ks \<Rightarrow> ks)"

text \<open>
  Stores to try the operations on: the server is reachable and compares byte by byte, and
  the local keys are those of the master.
\<close>

definition mk_row :: "string \<Rightarrow> string \<Rightarrow> minion_row" where
  "mk_row n s = \<lparr>minion_id = n, minion_key = ''-----BEGIN PUBLIC KEY-----'', key_type = ''zmq'', state = s\<rparr>"

definition mk_store :: "minion_row list \<Rightarrow> keystore" where
  "mk_store rs =
     \<lparr>rows = rs, table = ''minions'', online = True, collation = (=),
      local_keys = [(''local'', [''master.pem'', ''master.pub''])]\<rparr>"

section \<open>Properties\<close>

lemma run_query_select: "snd (run_query self select_id_state) = self"
  by (simp add: run_query_def select_id_state_def error_map_def)

subsection \<open>The listing\<close>

lemma map_of_add_entry:
  "map_of (add_entry d e) s =
     (if snd e = s then Some ((case map_of d s of Some ks \<Rightarrow> ks | None \<Rightarrow> []) @ [fst e])
      else map_of d s)"
  by (auto simp: add_entry_def update_conv' split: option.splits)

lemma map_of_foldl_add_entry:
  "map_of (foldl add_entry d data) s =
     (case map_of d s of
        Some ks \<Rightarrow> Some (ks @ map fst (filter (\<lambda>e. snd e = s) data))
      | None \<Rightarrow> (if filter (\<lambda>e. snd e = s) data = [] then None
                 else Some (map fst (filter (\<lambda>e. snd e = s) data))))"
proof (induction data arbitrary: d)
  case Nil
  then show ?case by (simp split: option.splits)
next
  case (Cons e data)
  show ?case
    by (simp add: Cons.IH map_of_add_entry split: option.splits)
qed

lemma filter_select:
  "map fst (filter (\<lambda>e. snd e = s) (map (\<lambda>r. (minion_id r, state r)) rs)) =
     map minion_id (filter (\<lambda>r. state r = s) rs)"
  by (induction rs) auto

lemma list_keys_offline:
  "\<not> online self \<Longrightarrow>
   list_keys self = Inl (AttributeError [''There was an error during a mysql-operation''])"
  by (simp add: list_keys_def run_query_def error_map_def)

lemma list_keys_online:
  assumes "online self"
  shows "\<exists>d. list_keys self = Inr d \<and>
     (\<forall>s. map_of d s =
        (if s \<in> {ACC, PEND, REJ, DEN} \<or> s \<in> state ` set (rows self)
         then Some (names_in self s) else None))"
proof -
  let ?data = "map (\<lambda>r. (minion_id r, state r)) (rows self)"
  let ?d = "foldl add_entry [(ACC, []), (PEND, []), (REJ, []), (DEN, [])] ?data"
  have 1: "list_keys self = Inr ?d"
    using assms by (simp add: list_keys_def run_query_def select_id_state_def)
  have 2: "map_of ?d s =
        (if s \<in> {ACC, PEND, REJ, DEN} \<or> s \<in> state ` set (rows self)
         then Some (names_in self s) else None)" for s
  proof -
    have e: "(filter (\<lambda>e. snd e = s) ?data = []) = (s \<notin> state ` set (rows self))"
      by (auto simp: filter_empty_conv)
    show ?thesis
      unfolding map_of_foldl_add_entry filter_select e
      by (auto simp: ACC_def PEND_def REJ_def DEN_def filter_select)
  qed
  show ?thesis using 1 2 by blast
qed

text \<open>
  C10. When the read succeeds, \<open>list_keys\<close> returns a dict in which each of the four codes
  \<open>acc\<close>, \<open>pre\<close>, \<open>rej\<close>, \<open>den\<close> is bound to the list of the names in that state (the empty
  list when there is none), and a row whose state is none of the four does not make the
  listing fail: its state is one more key of the dict, bound to the names in that state.
  No other key is bound.
\<close>

theorem list_keys_buckets:
  assumes "online self"
  shows "\<exists>d. list_keys self = Inr d \<and>
     map_of d ''acc'' = Some (names_in self ''acc'') \<and>
     map_of d ''pre'' = Some (names_in self ''pre'') \<and>
     map_of d ''rej'' = Some (names_in self ''rej'') \<and>
     map_of d ''den'' = Some (names_in self ''den'') \<and>
     (\<forall>r \<in> set (rows self). map_of d (state r) = Some (names_in self (state r)) \<and>
        minion_id r \<in> set (names_in self (state r))) \<and>
     (\<forall>s. s \<notin> {''acc'', ''pre'', ''rej'', ''den''} \<and> s \<notin> state ` set (rows self)
        \<longrightarrow> map_of d s = None)"
proof -
  from list_keys_online [OF assms] obtain d where
    d: "list_keys self = Inr d" and
    m: "\<And>s. map_of d s =
        (if s \<in> {ACC, PEND, REJ, DEN} \<or> s \<in> state ` set (rows self)
         then Some (names_in self s) else None)"
    by blast
  have "map_of d ''acc'' = Some (names_in self ''acc'')"
    and "map_of d ''pre'' = Some (names_in self ''pre'')"
    and "map_of d ''rej'' = Some (names_in self ''rej'')"
    and "map_of d ''den'' = Some (names_in self ''den'')"
    by (simp_all add: m ACC_def PEND_def REJ_def DEN_def)
  moreover have "\<forall>r \<in> set (rows self). map_of d (state r) = Some (names_in self (state r)) \<and>
        minion_id r \<in> set (names_in self (state r))"
    by (simp add: m)
  moreover have "\<forall>s. s \<notin> {''acc'', ''pre'', ''rej'', ''den''} \<and> s \<notin> state ` set (rows self)
        \<longrightarrow> map_of d s = None"
    by (simp add: m ACC_def PEND_def REJ_def DEN_def)
  ultimately show ?thesis using d by blast
qed

theorem list_keys_buckets_witness:
  "online (mk_store [mk_row ''m1'' ''pre'', mk_row ''m2'' ''odd'']) \<and>
   (\<exists>d. list_keys (mk_store [mk_row ''m1'' ''pre'', mk_row ''m2'' ''odd'']) = Inr d \<and>
      map_of d ''acc'' = Some [] \<and> map_of d ''pre'' = Some [''m1''] \<and>
      map_of d ''rej'' = Some [] \<and> map_of d ''den'' = Some [] \<and>
      map_of d ''odd'' = Some [''m2''] \<and> map_of d ''minions'' = None)"
proof -
  have on: "online (mk_store [mk_row ''m1'' ''pre'', mk_row ''m2'' ''odd''])"
    by (simp add: mk_store_def)
  from list_keys_buckets [OF on] obtain d where
    "list_keys (mk_store [mk_row ''m1'' ''pre'', mk_row ''m2'' ''odd'']) = Inr d"
    "map_of d ''acc'' = Some (names_in (mk_store [mk_row ''m1'' ''pre'', mk_row ''m2'' ''odd'']) ''acc'')"
    "map_of d ''pre'' = Some (names_in (mk_store [mk_row ''m1'' ''pre'', mk_row ''m2'' ''odd'']) ''pre'')"
    "map_of d ''rej'' = Some (names_in (mk_store [mk_row ''m1'' ''pre'', mk_row ''m2'' ''odd'']) ''rej'')"
    "map_of d ''den'' = Some (names_in (mk_store [mk_row ''m1'' ''pre'', mk_row ''m2'' ''odd'']) ''den'')"
    "\<forall>r \<in> set (rows (mk_store [mk_row ''m1'' ''pre'', mk_row ''m2'' ''odd''])).
        map_of d (state r) = Some (names_in (mk_store [mk_row ''m1'' ''pre'', mk_row ''m2'' ''odd'']) (state r))"
    "\<forall>s. s \<notin> {''acc'', ''pre'', ''rej'', ''den''} \<and>
         s \<notin> state ` set (rows (mk_store [mk_row ''m1'' ''pre'', mk_row ''m2'' ''odd'']))
        \<longrightarrow> map_of d s = None"
    by blast
  then show ?thesis
    using on by (auto simp: mk_store_def mk_row_def)
qed

subsection \<open>Accepting every pending minion\<close>

lemma snd_compat: "snd (compat res) = snd res"
  by (cases res) (auto simp: compat_def split: sum.splits)

lemma fst_compat: "fst (compat res) = map_sum id compat_dict (fst res)"
  by (cases res) (auto simp: compat_def split: sum.splits)

lemma format_quote_free:
  "list_all quote_free (tl args) \<Longrightarrow> format query args = Some (query args)"
  by (simp add: format_def)











subsection \<open>What an operation leaves as it is\<close>

lemma run_query_frame:
  "snd (run_query self q) = self\<lparr>rows := rows (snd (run_query self q))\<rparr>"
  by (simp add: run_query_def split: prod.splits sum.splits option.splits)

lemma execute_frame:
  "execute s q = Some s' \<Longrightarrow> s' = s\<lparr>rows := rows s'\<rparr>"
  using run_query_frame by (auto simp: execute_def)

lemma frame_trans:
  "s1 = (s :: keystore)\<lparr>rows := rows s1\<rparr> \<Longrightarrow> s2 = s1\<lparr>rows := rows s2\<rparr> \<Longrightarrow> s2 = s\<lparr>rows := rows s2\<rparr>"
  by (metis keystore.update_convs(1) keystore.surjective keystore.select_convs)

lemma for_each_frame:
  assumes "\<forall>(s :: keystore) x s'. body s x = Some s' \<longrightarrow> s' = s\<lparr>rows := rows s'\<rparr>"
  shows "for_each body s xs = Some s' \<Longrightarrow> s' = s\<lparr>rows := rows s'\<rparr>"
proof (induction xs arbitrary: s)
  case Nil
  then show ?case by simp
next
  case (Cons x xs)
  from Cons.prems obtain s1 where b: "body s x = Some s1" and r: "for_each body s1 xs = Some s'"
    by (auto split: option.splits)
  from assms b have "s1 = s\<lparr>rows := rows s1\<rparr>" by blast
  from frame_trans [OF this Cons.IH [OF r]] show ?case .
qed

lemma for_minions_frame:
  assumes "\<forall>(s :: keystore) x s'. body s x = Some s' \<longrightarrow> s' = s\<lparr>rows := rows s'\<rparr>"
    and "for_minions body s matches = Some s'"
  shows "s' = s\<lparr>rows := rows s'\<rparr>"
proof -
  have inner: "\<forall>(s :: keystore) x s'. (\<lambda>s (state, minions). for_each body s minions) s x = Some s'
      \<longrightarrow> s' = s\<lparr>rows := rows s'\<rparr>"
    using for_each_frame [OF assms(1)] by auto
  from assms(2) have "for_each (\<lambda>s (state, minions). for_each body s minions) s matches = Some s'"
    by (simp add: for_minions_def)
  then show ?thesis by (rule for_each_frame [OF inner])
qed

lemma accept_minion_frame:
  "\<forall>s x s'. accept_minion flag s x = Some s' \<longrightarrow> s' = s\<lparr>rows := rows s'\<rparr>"
  by (auto simp: accept_minion_def dest: execute_frame split: if_splits)

lemma reject_minion_frame:
  "\<forall>s x s'. reject_minion flag s x = Some s' \<longrightarrow> s' = s\<lparr>rows := rows s'\<rparr>"
  by (auto simp: reject_minion_def dest: execute_frame split: if_splits)

lemma accept_frame:
  "snd (accept self match match_dict flag) =
     self\<lparr>rows := rows (snd (accept self match match_dict flag))\<rparr>"
  unfolding accept_def snd_compat accept_func_def
  using for_minions_frame [OF accept_minion_frame [of flag]]
  by (auto split: sum.splits option.splits)

lemma reject_frame:
  "snd (reject self match match_dict flag) =
     self\<lparr>rows := rows (snd (reject self match match_dict flag))\<rparr>"
  unfolding reject_def snd_compat reject_func_def
  using for_minions_frame [OF reject_minion_frame [of flag]]
  by (auto split: sum.splits option.splits)

lemma mk_store_rows: "(mk_store rs)\<lparr>rows := rs'\<rparr> = mk_store rs'"
  by (simp add: mk_store_def)

lemma pair_fst_snd: "fst p = a \<Longrightarrow> snd p = b \<Longrightarrow> p = (a, b)"
  by auto

lemma accept_on_mk_store:
  assumes "fst (accept (mk_store rs) match match_dict flag) = res"
    and "rows (snd (accept (mk_store rs) match match_dict flag)) = rs'"
  shows "accept (mk_store rs) match match_dict flag = (res, mk_store rs')"
proof -
  have "snd (accept (mk_store rs) match match_dict flag) = mk_store rs'"
    using accept_frame [of "mk_store rs" match match_dict flag] assms(2)
    by (simp add: mk_store_rows)
  with assms(1) show ?thesis by (rule pair_fst_snd)
qed

lemma reject_on_mk_store:
  assumes "fst (reject (mk_store rs) match match_dict flag) = res"
    and "rows (snd (reject (mk_store rs) match match_dict flag)) = rs'"
  shows "reject (mk_store rs) match match_dict flag = (res, mk_store rs')"
proof -
  have "snd (reject (mk_store rs) match match_dict flag) = mk_store rs'"
    using reject_frame [of "mk_store rs" match match_dict flag] assms(2)
    by (simp add: mk_store_rows)
  with assms(1) show ?thesis by (rule pair_fst_snd)
qed

subsection \<open>Accepting and rejecting by pattern or by dict\<close>

text \<open>
  C3. A rejected minion \<open>x\<close> and a pattern that matches \<open>x\<close> alone. Without
  \<^verbatim>\<open>include_rejected\<close> the minion stays rejected, as the claim says. With
  \<^verbatim>\<open>include_rejected\<close> the claim has it accepted, and the statement sent is
  \<^verbatim>\<open>... WHERE minion_id='x' AND state='pre' OR state='pre'\<close>: the clause added for the flag
  names \<^verbatim>\<open>{3}\<close>, the pending state, and \<^verbatim>\<open>self.REJ\<close>, passed as the fifth argument, is never
  used. The minion stays rejected.
\<close>

theorem accept_include_rejected_keeps_rejected:
  "name_match (mk_store [mk_row ''x'' ''rej'']) ''x'' = Inr [(''rej'', [''x''])] \<and>
   accept (mk_store [mk_row ''x'' ''rej'']) (Some ''x'') None False =
     (Inr [(''minions_rejected'', [''x''])], mk_store [mk_row ''x'' ''rej'']) \<and>
   accept (mk_store [mk_row ''x'' ''rej'']) (Some ''x'') None True =
     (Inr [(''minions_rejected'', [''x''])], mk_store [mk_row ''x'' ''rej''])"
proof (intro conjI)
  show "name_match (mk_store [mk_row ''x'' ''rej'']) ''x'' = Inr [(''rej'', [''x''])]"
    by code_simp
  have "fst (accept (mk_store [mk_row ''x'' ''rej'']) (Some ''x'') None False) =
          Inr [(''minions_rejected'', [''x''])]"
    and "rows (snd (accept (mk_store [mk_row ''x'' ''rej'']) (Some ''x'') None False)) =
          [mk_row ''x'' ''rej'']"
    by code_simp+
  then show "accept (mk_store [mk_row ''x'' ''rej'']) (Some ''x'') None False =
     (Inr [(''minions_rejected'', [''x''])], mk_store [mk_row ''x'' ''rej''])"
    by (rule accept_on_mk_store)
  have "fst (accept (mk_store [mk_row ''x'' ''rej'']) (Some ''x'') None True) =
          Inr [(''minions_rejected'', [''x''])]"
    and "rows (snd (accept (mk_store [mk_row ''x'' ''rej'']) (Some ''x'') None True)) =
          [mk_row ''x'' ''rej'']"
    by code_simp+
  then show "accept (mk_store [mk_row ''x'' ''rej'']) (Some ''x'') None True =
     (Inr [(''minions_rejected'', [''x''])], mk_store [mk_row ''x'' ''rej''])"
    by (rule accept_on_mk_store)
qed

text \<open>
  C1. Two pending minions \<open>a\<close> and \<open>b\<close> and the pattern \<open>a\<close>, which selects \<open>a\<close> alone. With
  the flag set, the \<^verbatim>\<open>OR state='pre'\<close> of the statement holds for every pending row, whatever
  its name: \<open>accept\<close> accepts \<open>b\<close> and \<open>reject\<close> rejects \<open>b\<close>, a minion outside the target
  set.
\<close>

theorem accept_reject_flag_changes_other_minions:
  "name_match (mk_store [mk_row ''a'' ''pre'', mk_row ''b'' ''pre'']) ''a'' = Inr [(''pre'', [''a''])] \<and>
   snd (accept (mk_store [mk_row ''a'' ''pre'', mk_row ''b'' ''pre'']) (Some ''a'') None True) =
     mk_store [mk_row ''a'' ''acc'', mk_row ''b'' ''acc''] \<and>
   snd (reject (mk_store [mk_row ''a'' ''pre'', mk_row ''b'' ''pre'']) (Some ''a'') None True) =
     mk_store [mk_row ''a'' ''rej'', mk_row ''b'' ''rej'']"
proof (intro conjI)
  show "name_match (mk_store [mk_row ''a'' ''pre'', mk_row ''b'' ''pre'']) ''a'' = Inr [(''pre'', [''a''])]"
    by code_simp
  have "rows (snd (accept (mk_store [mk_row ''a'' ''pre'', mk_row ''b'' ''pre'']) (Some ''a'') None True)) =
          [mk_row ''a'' ''acc'', mk_row ''b'' ''acc'']"
    by code_simp
  then show "snd (accept (mk_store [mk_row ''a'' ''pre'', mk_row ''b'' ''pre'']) (Some ''a'') None True) =
     mk_store [mk_row ''a'' ''acc'', mk_row ''b'' ''acc'']"
    using accept_frame [of "mk_store [mk_row ''a'' ''pre'', mk_row ''b'' ''pre'']" "Some ''a''" None True]
    by (simp add: mk_store_rows)
  have "rows (snd (reject (mk_store [mk_row ''a'' ''pre'', mk_row ''b'' ''pre'']) (Some ''a'') None True)) =
          [mk_row ''a'' ''rej'', mk_row ''b'' ''rej'']"
    by code_simp
  then show "snd (reject (mk_store [mk_row ''a'' ''pre'', mk_row ''b'' ''pre'']) (Some ''a'') None True) =
     mk_store [mk_row ''a'' ''rej'', mk_row ''b'' ''rej'']"
    using reject_frame [of "mk_store [mk_row ''a'' ''pre'', mk_row ''b'' ''pre'']" "Some ''a''" None True]
    by (simp add: mk_store_rows)
qed

text \<open>
  C6. Each of the patterns \<open>web01\<close> and \<open>db01\<close> selects its minion. The pattern
  \<open>web01,db01\<close> is split into the list of the two, and the loop over the list tests
  \<^verbatim>\<open>'^' + match + '$'\<close>, with the list in place of its item: the call raises TypeError
  and returns no union.
\<close>

theorem name_match_comma_raises:
  "name_match (mk_store [mk_row ''web01'' ''pre'', mk_row ''db01'' ''pre'']) ''web01'' =
     Inr [(''pre'', [''web01''])] \<and>
   name_match (mk_store [mk_row ''web01'' ''pre'', mk_row ''db01'' ''pre'']) ''db01'' =
     Inr [(''pre'', [''db01''])] \<and>
   name_match (mk_store [mk_row ''web01'' ''pre'', mk_row ''db01'' ''pre'']) ''web01,db01'' =
     Inl TypeError"
  by code_simp

text \<open>
  C7. \<open>accept\<close> and \<open>reject\<close> called with a dict and no pattern run their statement for
  the names of the dict, and return what \<open>dict_match\<close> returns: the empty dict, not the
  dict that was passed.
\<close>

theorem accept_match_dict_returns_empty:
  "accept (mk_store [mk_row ''a'' ''pre'']) None (Some [(''pre'', [''a''])]) False =
     (Inr [], mk_store [mk_row ''a'' ''acc'']) \<and>
   reject (mk_store [mk_row ''a'' ''acc'']) None (Some [(''acc'', [''a''])]) False =
     (Inr [], mk_store [mk_row ''a'' ''rej''])"
proof (intro conjI)
  have "fst (accept (mk_store [mk_row ''a'' ''pre'']) None (Some [(''pre'', [''a''])]) False) = Inr []"
    and "rows (snd (accept (mk_store [mk_row ''a'' ''pre'']) None (Some [(''pre'', [''a''])]) False)) =
          [mk_row ''a'' ''acc'']"
    by code_simp+
  then show "accept (mk_store [mk_row ''a'' ''pre'']) None (Some [(''pre'', [''a''])]) False =
     (Inr [], mk_store [mk_row ''a'' ''acc''])"
    by (rule accept_on_mk_store)
  have "fst (reject (mk_store [mk_row ''a'' ''acc'']) None (Some [(''acc'', [''a''])]) False) = Inr []"
    and "rows (snd (reject (mk_store [mk_row ''a'' ''acc'']) None (Some [(''acc'', [''a''])]) False)) =
          [mk_row ''a'' ''rej'']"
    by code_simp+
  then show "reject (mk_store [mk_row ''a'' ''acc'']) None (Some [(''acc'', [''a''])]) False =
     (Inr [], mk_store [mk_row ''a'' ''rej''])"
    by (rule reject_on_mk_store)
qed

subsection \<open>Deleting minions that are not in the table\<close>

lemma delete_where_absent:
  assumes "\<forall>r \<in> set rs. \<not> coll (minion_id r) key"
  shows "delete_where coll (Minion_id_eq 1) [t, key] rs = (Inr (), rs)"
  using assms by (simp add: delete_where_def filter_id_conv)

lemma delete_minion_absent:
  assumes "quote_free key" and "\<forall>r \<in> set (rows self). \<not> collation self (minion_id r) key"
  shows "delete_minion (ret, self) key = Some (Some (online self), self)"
  using assms
  by (simp add: delete_minion_def format_quote_free run_query_def delete_where_absent error_map_def
      del: One_nat_def)

lemma delete_keys_absent:
  assumes "list_all quote_free keys"
    and "\<forall>n \<in> set keys. \<forall>r \<in> set (rows self). \<not> collation self (minion_id r) n"
  shows "for_each delete_minion (ret, self) keys =
           Some (if keys = [] then ret else Some (online self), self)"
  using assms
proof (induction keys arbitrary: ret)
  case Nil
  then show ?case by simp
next
  case (Cons key keys)
  have 1: "delete_minion (ret, self) key = Some (Some (online self), self)"
    using Cons.prems by (simp add: delete_minion_absent)
  have 2: "for_each delete_minion (Some (online self), self) keys =
             Some (if keys = [] then Some (online self) else Some (online self), self)"
    using Cons.prems by (intro Cons.IH) simp_all
  show ?case by (simp add: 1 2)
qed

lemma delete_matches_absent:
  assumes "list_all quote_free (concat (map snd matches))"
    and "\<forall>n \<in> set (concat (map snd matches)). \<forall>r \<in> set (rows self). \<not> collation self (minion_id r) n"
  shows "for_minions delete_minion (ret, self) matches =
           Some (if concat (map snd matches) = [] then ret else Some (online self), self)"
  using assms
proof (induction matches arbitrary: ret)
  case Nil
  then show ?case by (simp add: for_minions_def)
next
  case (Cons m matches)
  obtain st keys where m: "m = (st, keys)" by (cases m)
  have k: "for_each delete_minion (ret, self) keys =
           Some (if keys = [] then ret else Some (online self), self)"
    using Cons.prems unfolding m by (intro delete_keys_absent) simp_all
  have r: "for_minions delete_minion (if keys = [] then ret else Some (online self), self) matches =
           Some (if concat (map snd matches) = []
                 then (if keys = [] then ret else Some (online self))
                 else Some (online self), self)"
    using Cons.prems unfolding m by (intro Cons.IH) simp_all
  have "for_minions delete_minion (ret, self) (m # matches) =
          for_minions delete_minion (if keys = [] then ret else Some (online self), self) matches"
    unfolding m by (simp add: for_minions_def k)
  then show ?case unfolding m by (simp add: r)
qed

text \<open>
  C8, as the claim states it: a delete whose pattern selects no minion raises nothing. The
  pattern \<open>nomatch\<close> selects no minion of the store, the loop runs no statement, \<^verbatim>\<open>ret\<close> is
  still None, and \<open>delete_key\<close> raises AttributeError.
\<close>

theorem delete_key_no_match_raises:
  "name_match (mk_store [mk_row ''a'' ''pre'']) ''nomatch'' = Inr [] \<and>
   delete_key (mk_store [mk_row ''a'' ''pre'']) (Some ''nomatch'') None =
     (Inl (AttributeError []), mk_store [mk_row ''a'' ''pre''])"
proof -
  have 1: "name_match (mk_store [mk_row ''a'' ''pre'']) ''nomatch'' = Inr []" by code_simp
  have 2: "matches_of (mk_store [mk_row ''a'' ''pre'']) (Some ''nomatch'') None = Inr []"
    by (simp add: matches_of_def 1)
  have "delete_key (mk_store [mk_row ''a'' ''pre'']) (Some ''nomatch'') None =
     (Inl (AttributeError []), mk_store [mk_row ''a'' ''pre''])"
    by (simp add: delete_key_def delete_key_func_def 2 for_minions_def compat_def)
  with 1 show ?thesis by simp
qed

text \<open>
  C8, amended. The names of a delete are those that its pattern selects, or those of its
  dict. When none of them is the name of a row, and none holds a quote or a backslash, the
  content of the store is unchanged. If there is no name at all, no statement runs, \<^verbatim>\<open>ret\<close>
  is still None and \<open>delete_key\<close> raises AttributeError, with no argument; so it does when
  the server executes no statement. If there is a name and the server executes the
  statements, each \<^verbatim>\<open>DELETE\<close> succeeds on no row, \<^verbatim>\<open>ret\<close> is True and \<open>delete_key\<close> raises
  nothing: it returns the matches of the pattern, renamed, or the empty dict of
  \<open>dict_match\<close>.
\<close>

theorem delete_key_absent_targets:
  assumes "matches_of self match match_dict = Inr matches"
    and "list_all quote_free (concat (map snd matches))"
    and "\<forall>n \<in> set (concat (map snd matches)). \<forall>r \<in> set (rows self).
           \<not> collation self (minion_id r) n"
  shows "snd (delete_key self match match_dict) = self \<and>
    (concat (map snd matches) = [] \<or> \<not> online self \<longrightarrow>
       fst (delete_key self match match_dict) = Inl (AttributeError [])) \<and>
    (concat (map snd matches) \<noteq> [] \<and> online self \<longrightarrow>
       fst (delete_key self match match_dict) =
         (case match of Some m \<Rightarrow> Inr (compat_dict matches) | None \<Rightarrow> Inr []))"
proof -
  let ?ret = "if concat (map snd matches) = [] then None else Some (online self)"
  have loop: "for_minions delete_minion (None, self) matches = Some (?ret, self)"
    by (rule delete_matches_absent [OF assms(2,3)])
  have f: "delete_key_func self match match_dict =
     (if ?ret = Some True then (matched_now self match matches, self)
      else (Inl (AttributeError []), self))"
    by (simp add: delete_key_func_def assms(1) loop)
  have 1: "snd (delete_key self match match_dict) = self"
    by (simp add: delete_key_def snd_compat f)
  have 2: "fst (delete_key self match match_dict) = Inl (AttributeError [])"
    if "concat (map snd matches) = [] \<or> \<not> online self"
    using that by (auto simp: delete_key_def fst_compat f)
  have 3: "fst (delete_key self match match_dict) =
         (case match of Some m \<Rightarrow> Inr (compat_dict matches) | None \<Rightarrow> Inr [])"
    if "concat (map snd matches) \<noteq> [] \<and> online self"
  proof -
    have g: "fst (delete_key self match match_dict) =
               map_sum id compat_dict (matched_now self match matches)"
      using that by (auto simp: delete_key_def fst_compat f)
    show ?thesis
    proof (cases match)
      case None
      then show ?thesis
        unfolding g
        by (simp add: matched_now_def dict_match_def compat_dict_def trans_map_def rename_key_def)
    next
      case (Some m)
      then have "name_match self m = Inr matches" using assms(1) by (simp add: matches_of_def)
      then show ?thesis
        unfolding g using Some by (simp add: matched_now_def)
    qed
  qed
  from 1 2 3 show ?thesis by blast
qed

theorem delete_key_absent_targets_witness:
  "matches_of (mk_store [mk_row ''a'' ''pre'']) None (Some [(''pre'', [''ghost''])]) =
     Inr [(''pre'', [''ghost''])] \<and>
   list_all quote_free (concat (map snd [(''pre'', [''ghost''])])) \<and>
   list_all (\<lambda>n. list_all (\<lambda>r. \<not> collation (mk_store [mk_row ''a'' ''pre'']) (minion_id r) n)
                    (rows (mk_store [mk_row ''a'' ''pre''])))
            (concat (map snd [(''pre'', [''ghost''])])) \<and>
   online (mk_store [mk_row ''a'' ''pre'']) \<and>
   delete_key (mk_store [mk_row ''a'' ''pre'']) None (Some [(''pre'', [''ghost''])]) =
     (Inr [], mk_store [mk_row ''a'' ''pre''])"
proof -
  let ?S = "mk_store [mk_row ''a'' ''pre'']"
  let ?D = "[(''pre'', [''ghost''])]"
  have 1: "matches_of ?S None (Some ?D) = Inr ?D" by (simp add: matches_of_def)
  have 2: "list_all quote_free (concat (map snd ?D))" by code_simp
  have 3: "list_all (\<lambda>n. list_all (\<lambda>r. \<not> collation ?S (minion_id r) n) (rows ?S))
            (concat (map snd ?D))"
    by (simp add: mk_store_def mk_row_def)
  then have h3: "\<forall>n \<in> set (concat (map snd ?D)). \<forall>r \<in> set (rows ?S).
           \<not> collation ?S (minion_id r) n"
    by (simp add: list_all_iff)
  have on: "online ?S" by (simp add: mk_store_def)
  have ne: "concat (map snd ?D) \<noteq> []" by simp
  from delete_key_absent_targets [OF 1 2 h3] on ne
  have "snd (delete_key ?S None (Some ?D)) = ?S" and "fst (delete_key ?S None (Some ?D)) = Inr []"
    by simp_all
  then have "delete_key ?S None (Some ?D) = (Inr [], ?S)" by (simp add: pair_fst_snd)
  with 1 2 3 on show ?thesis by simp
qed

subsection \<open>The decorator\<close>

lemma rename_key_other:
  "x \<noteq> k \<Longrightarrow> x \<noteq> n \<Longrightarrow> map_of (rename_key d (k, n)) x = map_of d x"
  by (simp add: rename_key_def update_conv' delete_conv' split: option.splits)

lemma rename_key_code:
  "k \<noteq> n \<Longrightarrow> map_of (rename_key d (k, n)) k = None"
  by (simp add: rename_key_def update_conv' delete_conv' split: option.splits)

lemma rename_key_name:
  "map_of (rename_key d (k, n)) n = (case map_of d k of Some v \<Rightarrow> Some v | None \<Rightarrow> map_of d n)"
  by (simp add: rename_key_def update_conv' delete_conv' split: option.splits)

lemma compat_dict_steps:
  "compat_dict d =
     rename_key (rename_key (rename_key (rename_key d (''acc'', ''minions''))
       (''rej'', ''minions_rejected'')) (''pre'', ''minions_pre'')) (''den'', ''minions_denied'')"
  by (simp add: compat_dict_def trans_map_def)

lemma compat_dict_codes:
  "map_of (compat_dict d) ''acc'' = None" "map_of (compat_dict d) ''rej'' = None"
  "map_of (compat_dict d) ''pre'' = None" "map_of (compat_dict d) ''den'' = None"
  unfolding compat_dict_steps by (simp_all add: rename_key_other rename_key_code)

lemma compat_dict_names:
  "map_of (compat_dict d) ''minions'' =
     (case map_of d ''acc'' of Some v \<Rightarrow> Some v | None \<Rightarrow> map_of d ''minions'')"
  "map_of (compat_dict d) ''minions_rejected'' =
     (case map_of d ''rej'' of Some v \<Rightarrow> Some v | None \<Rightarrow> map_of d ''minions_rejected'')"
  "map_of (compat_dict d) ''minions_pre'' =
     (case map_of d ''pre'' of Some v \<Rightarrow> Some v | None \<Rightarrow> map_of d ''minions_pre'')"
  "map_of (compat_dict d) ''minions_denied'' =
     (case map_of d ''den'' of Some v \<Rightarrow> Some v | None \<Rightarrow> map_of d ''minions_denied'')"
  unfolding compat_dict_steps
  by (simp_all add: rename_key_other rename_key_name split: option.splits)

lemma compat_dict_others:
  "x \<notin> {''acc'', ''rej'', ''pre'', ''den'',
         ''minions'', ''minions_rejected'', ''minions_pre'', ''minions_denied''} \<Longrightarrow>
   map_of (compat_dict d) x = map_of d x"
  unfolding compat_dict_steps by (simp add: rename_key_other)

lemma compat_apfst: "compat res = apfst (map_sum id compat_dict) res"
  by (cases res) (auto simp: compat_def split: sum.splits)

lemma list_keys_codes:
  assumes "list_keys self = Inr l" and "k \<in> {''acc'', ''pre'', ''rej'', ''den''}"
  shows "map_of l k \<noteq> None"
proof -
  have on: "online self"
    using assms(1) by (cases "online self") (simp_all add: list_keys_offline)
  from list_keys_online [OF on] assms(1) have
    "map_of l k = (if k \<in> {ACC, PEND, REJ, DEN} \<or> k \<in> state ` set (rows self)
         then Some (names_in self k) else None)"
    by auto
  then show ?thesis
    using assms(2) by (auto simp: ACC_def PEND_def REJ_def DEN_def)
qed

text \<open>
  C2, as the claim states it: the renaming is applied to every operation that returns a
  dict keyed by state, the full listing included. \<open>list_keys\<close> has no decorator: its keys
  are the internal codes.
\<close>

theorem list_keys_internal_codes:
  "list_keys (mk_store [mk_row ''m1'' ''pre'', mk_row ''m2'' ''acc'']) =
     Inr [(''acc'', [''m2'']), (''pre'', [''m1'']), (''rej'', []), (''den'', [])]"
  by code_simp

text \<open>
  C2, amended. After the renaming no internal code is a key. The external name of a code is
  bound to the value that the code had, unchanged and whatever its type; when the code was
  not a key, the external name is bound to what it was bound to before. Every other key is
  as it was. Each of the ten methods with the decorator (\<open>all_keys\<close>, \<open>list_status\<close>,
  \<open>accept\<close>, \<open>accept_all\<close>, \<open>reject\<close>, \<open>reject_all\<close>, \<open>delete_key\<close>, \<open>delete_all\<close>, \<open>key_str\<close>,
  \<open>key_str_all\<close>) returns the renaming of the dict that its body returns, or the exception
  that its body raises, and leaves the store that its body leaves. \<open>list_keys\<close> has no
  decorator: its result has the four internal codes as keys.
\<close>

theorem compat_renames_top_level_keys:
  "(map_of (compat_dict d) ''acc'' = None \<and> map_of (compat_dict d) ''rej'' = None \<and>
    map_of (compat_dict d) ''pre'' = None \<and> map_of (compat_dict d) ''den'' = None) \<and>
   (map_of (compat_dict d) ''minions'' =
      (case map_of d ''acc'' of Some v \<Rightarrow> Some v | None \<Rightarrow> map_of d ''minions'') \<and>
    map_of (compat_dict d) ''minions_rejected'' =
      (case map_of d ''rej'' of Some v \<Rightarrow> Some v | None \<Rightarrow> map_of d ''minions_rejected'') \<and>
    map_of (compat_dict d) ''minions_pre'' =
      (case map_of d ''pre'' of Some v \<Rightarrow> Some v | None \<Rightarrow> map_of d ''minions_pre'') \<and>
    map_of (compat_dict d) ''minions_denied'' =
      (case map_of d ''den'' of Some v \<Rightarrow> Some v | None \<Rightarrow> map_of d ''minions_denied'')) \<and>
   (\<forall>x. x \<notin> {''acc'', ''rej'', ''pre'', ''den'',
               ''minions'', ''minions_rejected'', ''minions_pre'', ''minions_denied''} \<longrightarrow>
      map_of (compat_dict d) x = map_of d x) \<and>
   (all_keys self = apfst (map_sum id compat_dict) (all_keys_func self) \<and>
    list_status self status = apfst (map_sum id compat_dict) (list_status_func self status) \<and>
    accept self match match_dict flag =
      apfst (map_sum id compat_dict) (accept_func self match match_dict flag) \<and>
    accept_all self = apfst (map_sum id compat_dict) (accept_all_func self) \<and>
    reject self match match_dict flag =
      apfst (map_sum id compat_dict) (reject_func self match match_dict flag) \<and>
    reject_all self = apfst (map_sum id compat_dict) (reject_all_func self) \<and>
    delete_key self match match_dict =
      apfst (map_sum id compat_dict) (delete_key_func self match match_dict) \<and>
    delete_all self = apfst (map_sum id compat_dict) (delete_all_func self) \<and>
    key_str self pat = apfst (map_sum id compat_dict) (key_str_func self pat) \<and>
    key_str_all self = apfst (map_sum id compat_dict) (key_str_all_func self)) \<and>
   (\<forall>l. list_keys self = Inr l \<longrightarrow>
      (\<forall>k \<in> {''acc'', ''pre'', ''rej'', ''den''}. map_of l k \<noteq> None))"
proof (intro conjI allI impI ballI)
  fix x :: string
  assume "x \<notin> {''acc'', ''rej'', ''pre'', ''den'',
               ''minions'', ''minions_rejected'', ''minions_pre'', ''minions_denied''}"
  then show "map_of (compat_dict d) x = map_of d x" by (rule compat_dict_others)
next
  fix l k
  assume "list_keys self = Inr l" and "k \<in> {''acc'', ''pre'', ''rej'', ''den''}"
  then show "map_of l k \<noteq> None" by (rule list_keys_codes)
qed (simp_all only: compat_dict_codes compat_dict_names compat_apfst all_keys_def list_status_def
      accept_def accept_all_def reject_def reject_all_def delete_key_def delete_all_def
      key_str_def key_str_all_def)

theorem compat_renames_top_level_keys_witness:
  "map_of (compat_dict [(''acc'', [(''pre'', ''KEY2'')]), (''minions'', [(''old'', ''KEY1'')]),
                        (''odd'', [(''m3'', ''KEY3'')])]) ''acc'' = None \<and>
   map_of (compat_dict [(''acc'', [(''pre'', ''KEY2'')]), (''minions'', [(''old'', ''KEY1'')]),
                        (''odd'', [(''m3'', ''KEY3'')])]) ''minions'' = Some [(''pre'', ''KEY2'')] \<and>
   map_of (compat_dict [(''acc'', [(''pre'', ''KEY2'')]), (''minions'', [(''old'', ''KEY1'')]),
                        (''odd'', [(''m3'', ''KEY3'')])]) ''minions_pre'' = None \<and>
   map_of (compat_dict [(''acc'', [(''pre'', ''KEY2'')]), (''minions'', [(''old'', ''KEY1'')]),
                        (''odd'', [(''m3'', ''KEY3'')])]) ''odd'' = Some [(''m3'', ''KEY3'')] \<and>
   fst (key_str_all (mk_store [mk_row ''pre'' ''acc'', mk_row ''m1'' ''pre''])) =
     Inr [(''minions'', [(''pre'', ''-----BEGIN PUBLIC KEY-----'')]), (''minions_rejected'', []),
          (''minions_pre'', [(''m1'', ''-----BEGIN PUBLIC KEY-----'')]), (''minions_denied'', [])] \<and>
   fst (key_str (mk_store [mk_row ''pre'' ''acc'', mk_row ''m1'' ''pre'']) ''pre'') =
     Inr [(''minions'', [(''pre'', ''-----BEGIN PUBLIC KEY-----'')])] \<and>
   fst (all_keys (mk_store [mk_row ''pre'' ''acc'', mk_row ''m1'' ''pre''])) =
     Inr [(''local'', [''master.pem'', ''master.pub'']), (''minions'', [''pre'']),
          (''minions_rejected'', []), (''minions_pre'', [''m1'']), (''minions_denied'', [])] \<and>
   fst (list_status (mk_store [mk_row ''pre'' ''acc'', mk_row ''m1'' ''pre'']) ''accepted'') =
     Inr [(''accepted'', [''pre'']), (''minions'', [])] \<and>
   (\<exists>l. list_keys (mk_store [mk_row ''pre'' ''acc'', mk_row ''m1'' ''pre'']) = Inr l \<and>
      map_of l ''acc'' \<noteq> None \<and> map_of l ''pre'' \<noteq> None)"
proof -
  let ?D = "[(''acc'', [(''pre'', ''KEY2'')]), (''minions'', [(''old'', ''KEY1'')]),
             (''odd'', [(''m3'', ''KEY3'')])]"
  let ?S = "mk_store [mk_row ''pre'' ''acc'', mk_row ''m1'' ''pre'']"
  let ?K = "''-----BEGIN PUBLIC KEY-----''"
  note T = compat_renames_top_level_keys [where d = ?D and self = ?S and pat = "''pre''"
      and status = "''accepted''"]
  note codes = T [THEN conjunct1]
  note names = T [THEN conjunct2, THEN conjunct1]
  note others = T [THEN conjunct2, THEN conjunct2, THEN conjunct1, rule_format]
  note ops = T [THEN conjunct2, THEN conjunct2, THEN conjunct2, THEN conjunct1]
  note listing = T [THEN conjunct2, THEN conjunct2, THEN conjunct2, THEN conjunct2, rule_format]
  have 1: "map_of (compat_dict ?D) ''acc'' = None" by (rule codes [THEN conjunct1])
  have "map_of (compat_dict ?D) ''minions'' =
      (case map_of ?D ''acc'' of Some v \<Rightarrow> Some v | None \<Rightarrow> map_of ?D ''minions'')"
    by (rule names [THEN conjunct1])
  then have 2: "map_of (compat_dict ?D) ''minions'' = Some [(''pre'', ''KEY2'')]" by simp
  have "map_of (compat_dict ?D) ''minions_pre'' =
      (case map_of ?D ''pre'' of Some v \<Rightarrow> Some v | None \<Rightarrow> map_of ?D ''minions_pre'')"
    by (rule names [THEN conjunct2, THEN conjunct2, THEN conjunct1])
  then have 3: "map_of (compat_dict ?D) ''minions_pre'' = None" by simp
  have "''odd'' \<notin> {''acc'', ''rej'', ''pre'', ''den'',
               ''minions'', ''minions_rejected'', ''minions_pre'', ''minions_denied''}"
    by simp
  then have "map_of (compat_dict ?D) ''odd'' = map_of ?D ''odd''" by (rule others)
  then have 4: "map_of (compat_dict ?D) ''odd'' = Some [(''m3'', ''KEY3'')]" by simp
  have "key_str_all ?S = apfst (map_sum id compat_dict) (key_str_all_func ?S)"
    using ops by simp
  then have a: "fst (key_str_all ?S) = map_sum id compat_dict (fst (key_str_all_func ?S))"
    by simp
  have b: "fst (key_str_all_func ?S) =
     Inr [(''acc'', [(''pre'', ?K)]), (''pre'', [(''m1'', ?K)]), (''rej'', []), (''den'', [])]"
    by code_simp
  have c: "compat_dict [(''acc'', [(''pre'', ?K)]), (''pre'', [(''m1'', ?K)]), (''rej'', []), (''den'', [])] =
     [(''minions'', [(''pre'', ?K)]), (''minions_rejected'', []),
      (''minions_pre'', [(''m1'', ?K)]), (''minions_denied'', [])]"
    by code_simp
  have 5: "fst (key_str_all ?S) =
     Inr [(''minions'', [(''pre'', ?K)]), (''minions_rejected'', []),
          (''minions_pre'', [(''m1'', ?K)]), (''minions_denied'', [])]"
    unfolding a b using c by simp
  have "key_str ?S ''pre'' = apfst (map_sum id compat_dict) (key_str_func ?S ''pre'')"
    using ops by simp
  then have a: "fst (key_str ?S ''pre'') = map_sum id compat_dict (fst (key_str_func ?S ''pre''))"
    by simp
  have b: "fst (key_str_func ?S ''pre'') = Inr [(''acc'', [(''pre'', ?K)])]"
    by code_simp
  have c: "compat_dict [(''acc'', [(''pre'', ?K)])] = [(''minions'', [(''pre'', ?K)])]"
    by code_simp
  have 6: "fst (key_str ?S ''pre'') = Inr [(''minions'', [(''pre'', ?K)])]"
    unfolding a b using c by simp
  have "all_keys ?S = apfst (map_sum id compat_dict) (all_keys_func ?S)"
    using ops by simp
  then have a: "fst (all_keys ?S) = map_sum id compat_dict (fst (all_keys_func ?S))"
    by simp
  have b: "fst (all_keys_func ?S) =
     Inr [(''acc'', [''pre'']), (''pre'', [''m1'']), (''rej'', []), (''den'', []),
          (''local'', [''master.pem'', ''master.pub''])]"
    by code_simp
  have c: "compat_dict [(''acc'', [''pre'']), (''pre'', [''m1'']), (''rej'', []), (''den'', []),
          (''local'', [''master.pem'', ''master.pub''])] =
     [(''local'', [''master.pem'', ''master.pub'']), (''minions'', [''pre'']),
      (''minions_rejected'', []), (''minions_pre'', [''m1'']), (''minions_denied'', [])]"
    by code_simp
  have 7: "fst (all_keys ?S) =
     Inr [(''local'', [''master.pem'', ''master.pub'']), (''minions'', [''pre'']),
          (''minions_rejected'', []), (''minions_pre'', [''m1'']), (''minions_denied'', [])]"
    unfolding a b using c by simp
  have "list_status ?S ''accepted'' =
      apfst (map_sum id compat_dict) (list_status_func ?S ''accepted'')"
    using ops by simp
  then have a: "fst (list_status ?S ''accepted'') =
      map_sum id compat_dict (fst (list_status_func ?S ''accepted''))"
    by simp
  have b: "fst (list_status_func ?S ''accepted'') = Inr [(''acc'', []), (''accepted'', [''pre''])]"
    by code_simp
  have c: "compat_dict [(''acc'', []), (''accepted'', [''pre''])] =
     [(''accepted'', [''pre'']), (''minions'', ([] :: string list))]"
    by code_simp
  have 8: "fst (list_status ?S ''accepted'') = Inr [(''accepted'', [''pre'']), (''minions'', [])]"
    unfolding a b using c by simp
  obtain l where l: "list_keys ?S = Inr l"
    by (simp add: list_keys_def run_query_def select_id_state_def mk_store_def)
  have 9: "map_of l ''pre'' \<noteq> None" "map_of l ''acc'' \<noteq> None"
    by (rule listing [OF l], simp)+
  from l 9 have 10: "\<exists>l. list_keys ?S = Inr l \<and> map_of l ''acc'' \<noteq> None \<and> map_of l ''pre'' \<noteq> None"
    by blast
  show ?thesis by (intro conjI) (fact 1 2 3 4 5 6 7 8 10)+
qed

subsection \<open>Selecting by a pattern\<close>

lemma map_of_add_match:
  "map_of (add_match ret status key) s =
     (if s = status then Some (bucket ret s @ [key]) else map_of ret s)"
  by (auto simp: add_match_def Let_def update_conv' split: option.splits)

lemma match_keys_regex:
  "parse_re p = Some r \<Longrightarrow>
   match_keys (Inl p) status ret keys =
     Inr (foldl (\<lambda>ret key. if matches_to_end r key then add_match ret status key else ret) ret keys)"
  by (induction keys arbitrary: ret) (simp_all add: test_key_def rematch_anchored_def)

lemma bucket_foldl_add_match:
  "set (bucket (foldl (\<lambda>ret key. if P key then add_match ret status key else ret) ret keys) s) =
     set (bucket ret s) \<union> (if s = status then {k \<in> set keys. P k} else {})"
  by (induction keys arbitrary: ret) (auto simp: map_of_add_match split: option.splits)

lemma set_isorted: "set (isorted keys) = set keys"
  by (simp add: isorted_def)

lemma match_states_regex:
  assumes "parse_re p = Some r"
  shows "\<exists>ret'. match_states (Inl p) ret matches = Inr ret' \<and>
     (\<forall>s. set (bucket ret' s) =
        set (bucket ret s) \<union> {k. matches_to_end r k \<and> (\<exists>keys. (s, keys) \<in> set matches \<and> k \<in> set keys)})"
proof (induction matches arbitrary: ret)
  case Nil
  then show ?case by simp
next
  case (Cons m matches)
  obtain status keys where m: "m = (status, keys)" by (cases m)
  let ?ret1 = "foldl (\<lambda>ret key. if matches_to_end r key then add_match ret status key else ret)
                 ret (isorted keys)"
  from Cons.IH [of ?ret1] obtain ret' where
    1: "match_states (Inl p) ?ret1 matches = Inr ret'" and
    2: "\<And>s. set (bucket ret' s) =
        set (bucket ?ret1 s) \<union> {k. matches_to_end r k \<and> (\<exists>keys. (s, keys) \<in> set matches \<and> k \<in> set keys)}"
    by blast
  have "match_states (Inl p) ret (m # matches) = Inr ret'"
    by (simp add: m match_keys_regex [OF assms] 1)
  moreover have "set (bucket ret' s) =
        set (bucket ret s) \<union> {k. matches_to_end r k \<and> (\<exists>keys. (s, keys) \<in> set (m # matches) \<and> k \<in> set keys)}" for s
    unfolding 2 bucket_foldl_add_match set_isorted m by auto
  ultimately show ?case by blast
qed

lemma distinct_add_entry:
  "distinct (map fst d) \<Longrightarrow> distinct (map fst (add_entry d e))"
  by (simp add: add_entry_def distinct_update split: option.splits)

lemma distinct_foldl_add_entry:
  "distinct (map fst d) \<Longrightarrow> distinct (map fst (foldl add_entry d data))"
  by (induction data arbitrary: d) (simp_all add: distinct_add_entry)

lemma list_keys_distinct:
  "list_keys self = Inr d \<Longrightarrow> distinct (map fst d)"
  by (auto simp: list_keys_def ACC_def PEND_def REJ_def DEN_def
      intro!: distinct_foldl_add_entry split: sum.splits)

lemma list_keys_members:
  assumes "list_keys self = Inr d"
  shows "(\<exists>keys. (s, keys) \<in> set d \<and> k \<in> set keys) \<longleftrightarrow> k \<in> set (names_in self s)"
proof -
  have on: "online self"
    using assms by (cases "online self") (simp_all add: list_keys_offline)
  from list_keys_online [OF on] assms have
    m: "\<And>s. map_of d s =
        (if s \<in> {ACC, PEND, REJ, DEN} \<or> s \<in> state ` set (rows self)
         then Some (names_in self s) else None)"
    by auto
  have dist: "distinct (map fst d)" by (rule list_keys_distinct [OF assms])
  have "(\<exists>keys. (s, keys) \<in> set d \<and> k \<in> set keys) \<longleftrightarrow>
        (\<exists>keys. map_of d s = Some keys \<and> k \<in> set keys)"
    using dist by simp
  also have "\<dots> \<longleftrightarrow> k \<in> set (names_in self s)"
    unfolding m by auto
  finally show ?thesis .
qed

lemma name_match_regex:
  assumes "online self" and "rework p = Inl q" and "parse_re q = Some r"
  shows "\<exists>ret. name_match self p = Inr ret \<and>
     (\<forall>s. set (bucket ret s) = {k \<in> set (names_in self s). matches_to_end r k})"
proof -
  from list_keys_online [OF assms(1)] obtain d where d: "list_keys self = Inr d" by blast
  from match_states_regex [OF assms(3), of "[]" d] obtain ret where
    1: "match_states (Inl q) [] d = Inr ret" and
    2: "\<And>s. set (bucket ret s) =
        set (bucket [] s) \<union> {k. matches_to_end r k \<and> (\<exists>keys. (s, keys) \<in> set d \<and> k \<in> set keys)}"
    by blast
  have "name_match self p = Inr ret"
    by (simp add: name_match_def d assms(2) 1)
  moreover have "set (bucket ret s) = {k \<in> set (names_in self s). matches_to_end r k}" for s
    unfolding 2 list_keys_members [OF d] by auto
  ultimately show ?thesis by blast
qed

subsection \<open>Patterns of ordinary characters\<close>

lemma not_special:
  "\<not> special c \<Longrightarrow> c \<noteq> CHR ''*'' \<and> c \<noteq> CHR ''.'' \<and> c \<noteq> CHR 0x5C"
  by (auto simp: special_def)

lemma tokens_plain:
  "\<forall>c \<in> set q. \<not> special c \<Longrightarrow>
   tokens (q @ t) = map_option ((@) (map (\<lambda>c. Atom (Lit c)) q)) (tokens t)"
proof (induction q)
  case Nil
  then show ?case by (simp add: option.map_ident)
next
  case (Cons c q)
  then have "\<not> special c" by simp
  then show ?case
    using Cons not_special [of c] by (simp add: option.map_comp o_def)
qed

lemma tokens_word_star:
  "tokens [CHR 0x5C, CHR ''w'', CHR ''*''] = Some [Atom Word_char, Asterisk]"
  by simp

lemma items_plain:
  "ts = [] \<or> ts = [Atom Word_char, Asterisk] \<Longrightarrow>
   items (map (\<lambda>c. Atom (Lit c)) q @ ts) =
     map_option ((@) (map (\<lambda>c. One (Lit c)) q)) (items ts)"
proof (induction q)
  case Nil
  then show ?case by (simp add: option.map_ident)
next
  case (Cons c q)
  show ?case
  proof (cases q)
    case Nil
    then show ?thesis using Cons.prems by auto
  next
    case (Cons c' q')
    then show ?thesis using Cons.IH Cons.prems
      by (simp add: option.map_comp o_def)
  qed
qed

lemma parse_re_plain:
  "\<forall>c \<in> set q. \<not> special c \<Longrightarrow> parse_re q = Some (map (\<lambda>c. One (Lit c)) q)"
  using tokens_plain [of q "[]"] items_plain [of "[]" q]
  by (simp add: parse_re_def)

lemma parse_re_plain_star:
  "\<forall>c \<in> set q. \<not> special c \<Longrightarrow>
   parse_re (q @ [CHR 0x5C, CHR ''w'', CHR ''*'']) = Some (map (\<lambda>c. One (Lit c)) q @ [Star Word_char])"
  using tokens_plain [of q "[CHR 0x5C, CHR ''w'', CHR ''*'']"]
    items_plain [of "[Atom Word_char, Asterisk]" q]
  by (simp add: parse_re_def)

lemma matches_literal_prefix:
  "matches_to_end (map (\<lambda>c. One (Lit c)) q @ r) n \<longleftrightarrow>
     (\<exists>m. n = q @ m \<and> matches_to_end r m)"
proof (induction q arbitrary: n)
  case Nil
  then show ?case by simp
next
  case (Cons c q)
  then show ?case by (cases n) auto
qed

lemma matches_end_no_newline:
  "CHR 0x0A \<notin> set m \<Longrightarrow> matches_to_end [] m \<longleftrightarrow> m = []"
  by auto

lemma matches_word_star:
  "CHR 0x0A \<notin> set m \<Longrightarrow> matches_to_end [Star Word_char] m \<longleftrightarrow> (\<forall>c \<in> set m. is_word c)"
  by (induction m) auto

lemma star_special: "special (CHR ''*'')"
  by (simp add: special_def)

lemma plain_not_endswith:
  assumes "\<forall>c \<in> set q. \<not> special c"
  shows "\<not> endswith q (CHR ''*'')"
proof
  assume "endswith q (CHR ''*'')"
  then have "q \<noteq> []" and "last q = CHR ''*''" by (simp_all add: endswith_def)
  then have "CHR ''*'' \<in> set q" using last_in_set [of q] by simp
  then show False using assms star_special by blast
qed

lemma rework_plain:
  assumes "\<forall>c \<in> set q. \<not> special c \<and> c \<noteq> CHR '',''"
  shows "rework q = Inl q"
proof -
  have "\<not> endswith q (CHR ''*'')" using assms by (simp add: plain_not_endswith)
  moreover have "CHR '','' \<notin> set q" using assms by blast
  ultimately show ?thesis by (simp add: rework_def)
qed

lemma dropWhile_no_star:
  "q \<noteq> [] \<Longrightarrow> hd q \<noteq> CHR ''*'' \<Longrightarrow> dropWhile (\<lambda>x. x = CHR ''*'') (q @ t) = q @ t"
  by (cases q) simp_all

lemma strip_plain_star:
  assumes "CHR ''*'' \<notin> set q"
  shows "strip (q @ [CHR ''*'']) (CHR ''*'') = q"
proof (cases "q = []")
  case True
  then show ?thesis by (simp add: strip_def)
next
  case False
  have h: "hd q \<noteq> CHR ''*''" using assms False hd_in_set [of q] by metis
  have l: "hd (rev q) \<noteq> CHR ''*''"
    using assms False last_in_set [of q] by (metis hd_rev)
  have 1: "dropWhile (\<lambda>x. x = CHR ''*'') (q @ [CHR ''*'']) = q @ [CHR ''*'']"
    using False h by (rule dropWhile_no_star)
  have 2: "dropWhile (\<lambda>x. x = CHR ''*'') (rev q @ []) = rev q @ []"
    using False l by (intro dropWhile_no_star) simp_all
  have "strip (q @ [CHR ''*'']) (CHR ''*'') =
          rev (dropWhile (\<lambda>x. x = CHR ''*'') (CHR ''*'' # rev q))"
    unfolding strip_def 1 by simp
  also have "\<dots> = rev (dropWhile (\<lambda>x. x = CHR ''*'') (rev q))" by simp
  also have "\<dots> = q" using 2 by simp
  finally show ?thesis .
qed

lemma rework_plain_star:
  assumes "\<forall>c \<in> set q. \<not> special c \<and> c \<noteq> CHR '',''"
  shows "rework (q @ [CHR ''*'']) = Inl (q @ [CHR 0x5C, CHR ''w'', CHR ''*''])"
proof -
  have ns: "CHR ''*'' \<notin> set q" using assms star_special by blast
  have nc: "CHR '','' \<notin> set q" using assms by blast
  have e: "endswith (q @ [CHR ''*'']) (CHR ''*'')" by (simp add: endswith_def)
  have s: "strip (q @ [CHR ''*'']) (CHR ''*'') = q" by (rule strip_plain_star [OF ns])
  have c: "CHR '','' \<notin> set (q @ [CHR 0x5C, CHR ''w'', CHR ''*''])" using nc by simp
  show ?thesis
    using c e s by (simp add: rework_def)
qed

lemma matches_plain:
  assumes "CHR 0x0A \<notin> set n"
  shows "matches_to_end (map (\<lambda>c. One (Lit c)) p) n \<longleftrightarrow> n = p"
proof -
  have "matches_to_end (map (\<lambda>c. One (Lit c)) p @ []) n \<longleftrightarrow>
          (\<exists>m. n = p @ m \<and> matches_to_end [] m)"
    by (rule matches_literal_prefix)
  moreover have "(\<exists>m. n = p @ m \<and> matches_to_end [] m) \<longleftrightarrow> n = p"
  proof
    assume "\<exists>m. n = p @ m \<and> matches_to_end [] m"
    then obtain m where m: "n = p @ m" "m = [] \<or> m = [CHR 0x0A]" by auto
    with assms show "n = p" by auto
  next
    assume "n = p"
    then show "\<exists>m. n = p @ m \<and> matches_to_end [] m" by simp
  qed
  ultimately show ?thesis by simp
qed

lemma matches_plain_star:
  assumes "CHR 0x0A \<notin> set n"
  shows "matches_to_end (map (\<lambda>c. One (Lit c)) q @ [Star Word_char]) n \<longleftrightarrow>
           (\<exists>w. n = q @ w \<and> (\<forall>c \<in> set w. is_word c))"
proof -
  have "matches_to_end (map (\<lambda>c. One (Lit c)) q @ [Star Word_char]) n \<longleftrightarrow>
          (\<exists>m. n = q @ m \<and> matches_to_end [Star Word_char] m)"
    by (rule matches_literal_prefix)
  moreover have "(\<exists>m. n = q @ m \<and> matches_to_end [Star Word_char] m) \<longleftrightarrow>
          (\<exists>w. n = q @ w \<and> (\<forall>c \<in> set w. is_word c))"
  proof
    assume "\<exists>m. n = q @ m \<and> matches_to_end [Star Word_char] m"
    then obtain m where m: "n = q @ m" "matches_to_end [Star Word_char] m" by blast
    have "CHR 0x0A \<notin> set m" using assms m(1) by simp
    then have "\<forall>c \<in> set m. is_word c" using m(2) matches_word_star [of m] by simp
    with m(1) show "\<exists>w. n = q @ w \<and> (\<forall>c \<in> set w. is_word c)" by blast
  next
    assume "\<exists>w. n = q @ w \<and> (\<forall>c \<in> set w. is_word c)"
    then obtain w where w: "n = q @ w" "\<forall>c \<in> set w. is_word c" by blast
    have "CHR 0x0A \<notin> set w" using assms w(1) by simp
    then have "matches_to_end [Star Word_char] w" using w(2) matches_word_star [of w] by simp
    with w(1) show "\<exists>m. n = q @ m \<and> matches_to_end [Star Word_char] m" by blast
  qed
  ultimately show ?thesis by simp
qed

text \<open>
  C5, amended. For a pattern of ordinary characters only (no character that is special in a
  regular expression, no comma; so it does not end in an asterisk), and for a name without
  a newline: the name is selected under a state if and only if it is a name of that state
  in the table and it is equal to the pattern. The store is online, so that the listing is
  read.
\<close>

theorem name_match_exact:
  assumes "online self" and "\<forall>c \<in> set p. \<not> special c \<and> c \<noteq> CHR '',''"
  shows "\<exists>ret. name_match self p = Inr ret \<and>
     (\<forall>s n. CHR 0x0A \<notin> set n \<longrightarrow>
        (n \<in> set (bucket ret s) \<longleftrightarrow> n \<in> set (names_in self s) \<and> n = p))"
proof -
  have pl: "\<forall>c \<in> set p. \<not> special c" using assms(2) by blast
  from name_match_regex [OF assms(1) rework_plain [OF assms(2)] parse_re_plain [OF pl]]
  obtain ret where
    1: "name_match self p = Inr ret" and
    2: "\<And>s. set (bucket ret s) =
          {k \<in> set (names_in self s). matches_to_end (map (\<lambda>c. One (Lit c)) p) k}"
    by blast
  have "n \<in> set (bucket ret s) \<longleftrightarrow> n \<in> set (names_in self s) \<and> n = p"
    if nl: "CHR 0x0A \<notin> set n" for s n
    unfolding 2 using matches_plain [OF nl, of p] by blast
  then show ?thesis using 1 by blast
qed

text \<open>
  C4, amended. For a pattern made of a prefix of ordinary characters (no character that is
  special in a regular expression, no comma) and one asterisk, and for a name without a
  newline: the name is selected under a state if and only if it is a name of that state in
  the table and it is the prefix followed by zero or more letters, digits or underscores.
\<close>

theorem name_match_trailing_star:
  assumes "online self" and "\<forall>c \<in> set q. \<not> special c \<and> c \<noteq> CHR '',''"
  shows "\<exists>ret. name_match self (q @ ''*'') = Inr ret \<and>
     (\<forall>s n. CHR 0x0A \<notin> set n \<longrightarrow>
        (n \<in> set (bucket ret s) \<longleftrightarrow>
           n \<in> set (names_in self s) \<and> (\<exists>w. n = q @ w \<and> (\<forall>c \<in> set w. is_word c))))"
proof -
  have pl: "\<forall>c \<in> set q. \<not> special c" using assms(2) by blast
  from name_match_regex [OF assms(1) rework_plain_star [OF assms(2)] parse_re_plain_star [OF pl]]
  obtain ret where
    1: "name_match self (q @ ''*'') = Inr ret" and
    2: "\<And>s. set (bucket ret s) =
          {k \<in> set (names_in self s).
             matches_to_end (map (\<lambda>c. One (Lit c)) q @ [Star Word_char]) k}"
    by blast
  have "n \<in> set (bucket ret s) \<longleftrightarrow>
           n \<in> set (names_in self s) \<and> (\<exists>w. n = q @ w \<and> (\<forall>c \<in> set w. is_word c))"
    if nl: "CHR 0x0A \<notin> set n" for s n
    unfolding 2 using matches_plain_star [OF nl, of q] by blast
  then show ?thesis using 1 by blast
qed

text \<open>
  C5, as the claim states it: a pattern that does not end in an asterisk selects the names
  equal to it. The pattern is a regular expression: \<open>web.1\<close> does not end in an asterisk
  and selects \<open>web01\<close>, which is not the pattern.
\<close>

theorem name_match_dot_is_wildcard:
  "name_match (mk_store [mk_row ''web01'' ''pre'']) ''web.1'' = Inr [(''pre'', [''web01''])]"
  by code_simp

text \<open>
  C4, as the claim states it: a pattern that ends in an asterisk selects the names that
  start with the literal prefix. The prefix is a regular expression too: \<open>w.b*\<close> selects
  \<open>wxb1\<close>, which does not start with \<open>w.b\<close>.
\<close>

theorem name_match_star_prefix_is_regex:
  "name_match (mk_store [mk_row ''wxb1'' ''pre'']) ''w.b*'' = Inr [(''pre'', [''wxb1''])]"
  by code_simp

text \<open>
  The example of the spec: among \<open>web01\<close> and \<open>web010\<close> the pattern \<open>web01\<close> selects
  \<open>web01\<close> only.
\<close>

theorem name_match_exact_witness:
  "online (mk_store [mk_row ''web01'' ''pre'', mk_row ''web010'' ''pre'']) \<and>
   (\<exists>ret. name_match (mk_store [mk_row ''web01'' ''pre'', mk_row ''web010'' ''pre'']) ''web01'' = Inr ret \<and>
      ''web01'' \<in> set (bucket ret ''pre'') \<and> ''web010'' \<notin> set (bucket ret ''pre''))"
proof -
  let ?S = "mk_store [mk_row ''web01'' ''pre'', mk_row ''web010'' ''pre'']"
  have on: "online ?S" by (simp add: mk_store_def)
  have pl: "\<forall>c \<in> set ''web01''. \<not> special c \<and> c \<noteq> CHR '',''"
    by (simp add: special_def)
  from name_match_exact [OF on pl] obtain ret where
    1: "name_match ?S ''web01'' = Inr ret" and
    2: "\<And>s n. CHR 0x0A \<notin> set n \<Longrightarrow>
          (n \<in> set (bucket ret s) \<longleftrightarrow> n \<in> set (names_in ?S s) \<and> n = ''web01'')"
    by blast
  have "''web01'' \<in> set (bucket ret ''pre'')"
    using 2 [of "''web01''" "''pre''"] by (simp add: mk_store_def mk_row_def)
  moreover have "''web010'' \<notin> set (bucket ret ''pre'')"
    using 2 [of "''web010''" "''pre''"] by (simp add: mk_store_def mk_row_def)
  ultimately show ?thesis using on 1 by blast
qed

lemma is_word_digits: "is_word (CHR ''0'')" "is_word (CHR ''1'')" "is_word (CHR ''x'')"
  "\<not> is_word (CHR ''-'')"
  by (simp_all add: is_word_def)

text \<open>
  The example of the spec: among \<open>web01\<close>, \<open>web-01\<close> and \<open>web1x\<close> the pattern \<open>web*\<close>
  selects \<open>web01\<close> and \<open>web1x\<close>.
\<close>

theorem name_match_trailing_star_witness:
  "online (mk_store [mk_row ''web01'' ''pre'', mk_row ''web-01'' ''pre'', mk_row ''web1x'' ''acc'']) \<and>
   (\<exists>ret. name_match (mk_store [mk_row ''web01'' ''pre'', mk_row ''web-01'' ''pre'', mk_row ''web1x'' ''acc''])
             ''web*'' = Inr ret \<and>
      ''web01'' \<in> set (bucket ret ''pre'') \<and> ''web-01'' \<notin> set (bucket ret ''pre'') \<and>
      ''web1x'' \<in> set (bucket ret ''acc''))"
proof -
  let ?S = "mk_store [mk_row ''web01'' ''pre'', mk_row ''web-01'' ''pre'', mk_row ''web1x'' ''acc'']"
  have on: "online ?S" by (simp add: mk_store_def)
  have pl: "\<forall>c \<in> set ''web''. \<not> special c \<and> c \<noteq> CHR '',''"
    by (simp add: special_def)
  from name_match_trailing_star [OF on pl] obtain ret where
    1: "name_match ?S (''web'' @ ''*'') = Inr ret" and
    2: "\<And>s n. CHR 0x0A \<notin> set n \<Longrightarrow>
          (n \<in> set (bucket ret s) \<longleftrightarrow>
             n \<in> set (names_in ?S s) \<and> (\<exists>w. n = ''web'' @ w \<and> (\<forall>c \<in> set w. is_word c)))"
    by blast
  have "''web01'' \<in> set (bucket ret ''pre'')"
    using 2 [of "''web01''" "''pre''"] by (simp add: mk_store_def mk_row_def is_word_digits)
  moreover have "''web-01'' \<notin> set (bucket ret ''pre'')"
    using 2 [of "''web-01''" "''pre''"] by (simp add: mk_store_def mk_row_def is_word_digits)
  moreover have "''web1x'' \<in> set (bucket ret ''acc'')"
    using 2 [of "''web1x''" "''acc''"] by (simp add: mk_store_def mk_row_def is_word_digits)
  ultimately show ?thesis using on 1 by auto
qed

end
